theory Spec2Isabelle
  imports Main "HOL-Library.Word" "HOL-Library.Sublist"
begin

unbundle bit_operations_syntax

chapter \<open>The capture program\<close>

section \<open>Oscilloscope screen capture: data model\<close>

text \<open>
  A Python \<open>str\<close> is a sequence of Unicode code points, a \<open>bytes\<close> object a sequence
  of octets. Text literals of the source are written with \<open>py\<close>.
\<close>

type_synonym str = "nat list"
type_synonym byte = "8 word"
type_synonym bytes = "byte list"

definition py :: "string \<Rightarrow> str" where
  "py s = map of_char s"

text \<open>
  \<open>str.upper()\<close>. Every text that reaches it in \<open>lecroy_capture.py\<close> was decoded
  with the ASCII codec (code points below 128, or the replacement character U+FFFD), or is
  a literal of the source; on these Python converts the letters a-z and nothing else.
\<close>

definition upper_cp :: "nat \<Rightarrow> nat" where
  "upper_cp c = (if 97 \<le> c \<and> c \<le> 122 then c - 32 else c)"

definition upper :: "str \<Rightarrow> str" where
  "upper s = map upper_cp s"

text \<open>\<open>str(n)\<close> of an integer, as an f-string renders it.\<close>

fun show_nat :: "nat \<Rightarrow> str" where
  "show_nat n = (if n < 10 then [48 + n] else show_nat (n div 10) @ [48 + n mod 10])"

declare show_nat.simps [simp del]

definition show_int :: "int \<Rightarrow> str" where
  "show_int i = (if i < 0 then 45 # show_nat (nat (- i)) else show_nat (nat i))"

section \<open>VISA resource helpers\<close>

text \<open>\<open>build_ethernet_resources(ip, port)\<close>.\<close>

definition build_ethernet_resources :: "str \<Rightarrow> int \<Rightarrow> str list" where
  "build_ethernet_resources ip port =
     (if port \<in> {0, 1861, 5025} then
        (let resources = [] @
               [py ''TCPIP::'' @ ip @ py ''::inst0::INSTR'',
                py ''TCPIP::'' @ ip @ py ''::hislip0::INSTR''];
             p = (if port \<in> {0, 5025} then 5025 else 1861)
         in resources @ [py ''TCPIP::'' @ ip @ py ''::'' @ show_int p @ py ''::SOCKET''])
      else
        [py ''TCPIP::'' @ ip @ py ''::inst0::INSTR'',
         py ''TCPIP::'' @ ip @ py ''::hislip0::INSTR'',
         py ''TCPIP::'' @ ip @ py ''::'' @ show_int port @ py ''::SOCKET''])"

section \<open>Vendor detection\<close>

text \<open>\<open>detect_vendor(idn)\<close>; \<open>sub in s\<close> on strings is the substring test.\<close>

definition detect_vendor :: "str \<Rightarrow> str" where
  "detect_vendor idn =
     (let idn_upper = upper idn in
      if sublist (py ''LECROY'') idn_upper \<or> sublist (py ''TELEDYNE'') idn_upper
        then py ''LECROY''
      else if sublist (py ''TEKTRONIX'') idn_upper \<or> sublist (py ''TEK'') idn_upper
        then py ''TEKTRONIX''
      else if sublist (py ''KEYSIGHT'') idn_upper \<or> sublist (py ''AGILENT'') idn_upper
                \<or> sublist (py ''HEWLETT'') idn_upper
        then py ''KEYSIGHT''
      else if sublist (py ''RIGOL'') idn_upper then py ''RIGOL''
      else if sublist (py ''SIGLENT'') idn_upper then py ''SIGLENT''
      else if sublist (py ''ROHDE'') idn_upper \<or> sublist (py ''ROHDE&SCHWARZ'') idn_upper
                \<or> sublist (py ''R&S'') idn_upper
        then py ''RNS''
      else py ''UNKNOWN'')"

section \<open>Exceptions and the socket\<close>

text \<open>
  The exceptions the capture code raises or catches. A raise is a value \<open>Inl e\<close>.
\<close>

datatype exn = UnicodeEncodeError | StructError | ConnectionError | Timeout | OSError
  | VisaIOError | ValueError | IndexError

text \<open>
  A TCP socket with a timeout. \<open>rx\<close> is what the peer will deliver, in order: a chunk
  of bytes (the empty chunk is the end of the stream: \<open>recv\<close> returns \<open>b""\<close>), or a
  failure of the read. When nothing is left the read times out. \<open>tx\<close> records every
  buffer handed to \<open>sendall\<close>; \<open>tx_left\<close> is the number of sends the connection
  still accepts before it breaks.
\<close>

datatype event = Recv bytes | Fail exn

record sock =
  rx :: "event list"
  tx :: "bytes list"
  tx_left :: nat

definition sendall :: "sock \<Rightarrow> bytes \<Rightarrow> exn + sock" where
  "sendall s d = (if tx_left s = 0 then Inl OSError
                  else Inr (s\<lparr>tx := tx s @ [d], tx_left := tx_left s - 1\<rparr>))"

text \<open>\<open>sock.recv(n)\<close>: at most \<open>n\<close> bytes of the next chunk.\<close>

definition sock_recv :: "nat \<Rightarrow> sock \<Rightarrow> (exn + bytes) \<times> sock" where
  "sock_recv n s =
     (case rx s of
        [] \<Rightarrow> (Inl Timeout, s)
      | Fail e # evs \<Rightarrow> (Inl e, s\<lparr>rx := evs\<rparr>)
      | Recv c # evs \<Rightarrow>
          if c = [] then (Inr [], s)
          else if length c \<le> n then (Inr c, s\<lparr>rx := evs\<rparr>)
          else (Inr (take n c), s\<lparr>rx := Recv (drop n c) # evs\<rparr>))"

section \<open>VICP framing\<close>

text \<open>\<open>recv_exact(n)\<close>, the helper inside \<open>_vicp_recv\<close>, with its buffer.\<close>

function recv_exact_loop :: "nat \<Rightarrow> bytes \<Rightarrow> sock \<Rightarrow> (exn + bytes) \<times> sock" where
  "recv_exact_loop n buf s =
     (if length buf < n then
        (case sock_recv (n - length buf) s of
           (Inl e, s') \<Rightarrow> (Inl e, s')
         | (Inr chunk, s') \<Rightarrow>
             if chunk = [] then (Inl ConnectionError, s')
             else recv_exact_loop n (buf @ chunk) s')
      else (Inr buf, s))"
  by pat_completeness auto
termination
proof (relation "measure (\<lambda>(n, buf, s). n - length buf)", goal_cases)
  case 1
  show ?case by simp
next
  case (2 n buf s x y b)
  then have "0 < length b" by simp
  with 2 show ?case by (simp del: length_greater_0_conv)
qed

declare recv_exact_loop.simps [simp del]

definition recv_exact :: "nat \<Rightarrow> sock \<Rightarrow> (exn + bytes) \<times> sock" where
  "recv_exact n s = recv_exact_loop n [] s"

text \<open>
  The header format \<open>">BBBBI"\<close>: four bytes and a big-endian unsigned 32-bit length.
\<close>

definition be32 :: "nat \<Rightarrow> bytes" where
  "be32 n = [of_nat (n div 2 ^ 24), of_nat (n div 2 ^ 16), of_nat (n div 2 ^ 8), of_nat n]"

definition be32_val :: "byte \<Rightarrow> byte \<Rightarrow> byte \<Rightarrow> byte \<Rightarrow> nat" where
  "be32_val a b c d = unat a * 2 ^ 24 + unat b * 2 ^ 16 + unat c * 2 ^ 8 + unat d"

text \<open>What is left to read; it shrinks with every successful read.\<close>

fun size_ev :: "event \<Rightarrow> nat" where
  "size_ev (Recv c) = Suc (length c)"
| "size_ev (Fail e) = 1"

definition size_rx :: "sock \<Rightarrow> nat" where
  "size_rx s = sum_list (map size_ev (rx s))"

lemma sock_recv_size:
  "sock_recv n s = (r, s') \<Longrightarrow> size_rx s' \<le> size_rx s"
  by (auto simp: size_rx_def sock_recv_def split: list.splits event.splits if_splits)

lemma sock_recv_size_strict:
  "sock_recv n s = (Inr c, s') \<Longrightarrow> c \<noteq> [] \<Longrightarrow> 0 < n \<Longrightarrow> size_rx s' < size_rx s"
  by (auto simp: size_rx_def sock_recv_def split: list.splits event.splits if_splits)

lemma recv_exact_loop_size:
  "recv_exact_loop n buf s = (r, s') \<Longrightarrow> size_rx s' \<le> size_rx s"
proof (induction n buf s rule: recv_exact_loop.induct)
  case (1 n buf s)
  show ?case
  proof (cases "length buf < n")
    case False
    with "1.prems" show ?thesis by (simp add: recv_exact_loop.simps)
  next
    case True
    obtain q t where st: "sock_recv (n - length buf) s = (q, t)" by (cases "sock_recv (n - length buf) s")
    have le: "size_rx t \<le> size_rx s" using sock_recv_size [OF st] .
    show ?thesis
    proof (cases q)
      case (Inl e)
      with True st "1.prems" le show ?thesis
        by (simp add: recv_exact_loop.simps [of n buf s])
    next
      case (Inr chunk)
      show ?thesis
      proof (cases "chunk = []")
        case True
        with \<open>length buf < n\<close> Inr st "1.prems" le show ?thesis
          by (simp add: recv_exact_loop.simps [of n buf s])
      next
        case False
        with \<open>length buf < n\<close> Inr st "1.prems"
        have "recv_exact_loop n (buf @ chunk) t = (r, s')"
          by (simp add: recv_exact_loop.simps [of n buf s])
        from "1.IH" [OF \<open>length buf < n\<close> st [symmetric] Inr False this] le
        show ?thesis by simp
      qed
    qed
  qed
qed

lemma be32_val_be32:
  assumes "n < 2 ^ 32"
  shows "be32_val (of_nat (n div 2 ^ 24)) (of_nat (n div 2 ^ 16)) (of_nat (n div 2 ^ 8)) (of_nat n) = n"
proof -
  define a where "a = n div 2 ^ 8"
  define b where "b = a div 2 ^ 8"
  define c where "c = b div 2 ^ 8"
  have n: "n = a * 256 + n mod 256" by (simp add: a_def)
  have a: "a = b * 256 + a mod 256" by (simp add: b_def)
  have b: "b = c * 256 + b mod 256" by (simp add: c_def)
  have b16: "n div 2 ^ 16 = b" by (simp add: a_def b_def div_mult2_eq)
  have c24: "n div 2 ^ 24 = c" by (simp add: a_def b_def c_def div_mult2_eq)
  have "c < 256" using assms unfolding c24 [symmetric] by (simp add: less_mult_imp_div_less)
  then have cm: "c mod 256 = c" by simp
  have "be32_val (of_nat c) (of_nat b) (of_nat a) (of_nat n)
        = c * 2 ^ 24 + (b mod 256) * 2 ^ 16 + (a mod 256) * 2 ^ 8 + n mod 256"
    by (simp add: be32_val_def unat_of_nat cm)
  also have "\<dots> = c * 16777216 + (b mod 256) * 65536 + (a mod 256) * 256 + n mod 256"
    by simp
  also have "\<dots> = n" using n a b by linarith
  finally have r: "be32_val (of_nat c) (of_nat b) (of_nat a) (of_nat n) = n" .
  show ?thesis unfolding c24 b16 a_def [symmetric] by (rule r)
qed


lemma recv_exact_size_strict:
  assumes "recv_exact n s = (Inr b, s')" "0 < n"
  shows "size_rx s' < size_rx s"
proof -
  obtain q t where st: "sock_recv n s = (q, t)" by (cases "sock_recv n s")
  from assms st obtain chunk where q: "q = Inr chunk" and ne: "chunk \<noteq> []"
    and rest: "recv_exact_loop n chunk t = (Inr b, s')"
    by (cases q) (auto simp: recv_exact_def recv_exact_loop.simps [of n "[]" s] split: if_splits)
  from sock_recv_size_strict [OF st [unfolded q] ne \<open>0 < n\<close>] recv_exact_loop_size [OF rest]
  show ?thesis by simp
qed

lemma recv_exact_size:
  "recv_exact n s = (r, s') \<Longrightarrow> size_rx s' \<le> size_rx s"
  unfolding recv_exact_def by (rule recv_exact_loop_size)

lemma recv_exact_size_strict':
  "(Inr b, s') = recv_exact n s \<Longrightarrow> 0 < n \<Longrightarrow> size_rx s' < size_rx s"
  by (rule recv_exact_size_strict [OF sym])

lemma recv_exact_size':
  "(r, s') = recv_exact n s \<Longrightarrow> size_rx s' \<le> size_rx s"
  by (rule recv_exact_size [OF sym])

text \<open>\<open>struct.unpack(_VICP_HDR, raw_hdr)\<close>; it raises unless it gets 8 bytes.\<close>

definition struct_unpack_hdr :: "bytes \<Rightarrow> exn + (byte \<times> byte \<times> byte \<times> byte \<times> nat)" where
  "struct_unpack_hdr raw =
     (case raw of
        [op, ver, sq, pad, l3, l2, l1, l0] \<Rightarrow> Inr (op, ver, sq, pad, be32_val l3 l2 l1 l0)
      | _ \<Rightarrow> Inl StructError)"

text \<open>
  \<open>_vicp_recv(sock)\<close>: the loop over frames. Every exception ends the loop and the bytes
  accumulated so far are returned.
\<close>

function vicp_recv_loop :: "bytes \<Rightarrow> sock \<Rightarrow> bytes \<times> sock" where
  "vicp_recv_loop img s =
     (case recv_exact 8 s of
        (Inl e, s1) \<Rightarrow> (img, s1)
      | (Inr raw_hdr, s1) \<Rightarrow>
          (case struct_unpack_hdr raw_hdr of
             Inl e \<Rightarrow> (img, s1)
           | Inr (op, ver, sq, pad, len) \<Rightarrow>
               let is_data = (op AND 0x80 \<noteq> 0);
                   eoi = (op AND 0x01 \<noteq> 0)
               in if len \<noteq> 0 then
                    (case recv_exact len s1 of
                       (Inl e, s2) \<Rightarrow> (img, s2)
                     | (Inr payload, s2) \<Rightarrow>
                         let img' = (if is_data then img @ payload else img)
                         in if eoi then (img', s2) else vicp_recv_loop img' s2)
                  else if eoi then (img, s1) else vicp_recv_loop img s1))"
  by pat_completeness auto
termination
  apply (relation "measure (\<lambda>(img, s). size_rx s)")
    apply simp
   apply clarsimp
   apply (drule recv_exact_size_strict', simp)
   apply (drule recv_exact_size')
   apply simp
  apply clarsimp
  apply (drule recv_exact_size_strict', simp)
  apply simp
  done

declare vicp_recv_loop.simps [simp del]

definition vicp_recv :: "sock \<Rightarrow> bytes \<times> sock" where
  "vicp_recv s = vicp_recv_loop [] s"


section \<open>Sending a command\<close>

text \<open>\<open>cmd.encode("ascii")\<close>: it raises on a code point above 127.\<close>

definition encode_ascii :: "str \<Rightarrow> exn + bytes" where
  "encode_ascii t =
     (if list_all (\<lambda>c. c < 128) t then Inr (map of_nat t) else Inl UnicodeEncodeError)"

text \<open>\<open>_vicp_next_seq()\<close> on the module counter \<open>_VICP_SEQ[0]\<close>: the value and the new counter.\<close>

definition vicp_next_seq :: "int \<Rightarrow> int \<times> int" where
  "vicp_next_seq q = (let q' = (q mod 255) + 1 in (q', q'))"

text \<open>\<open>struct.pack(_VICP_HDR, ...)\<close>; it raises when a field is out of range.\<close>

definition struct_pack_hdr :: "int \<Rightarrow> int \<Rightarrow> int \<Rightarrow> int \<Rightarrow> int \<Rightarrow> exn + bytes" where
  "struct_pack_hdr op ver sq pad len =
     (if list_all (\<lambda>b. 0 \<le> b \<and> b \<le> 255) [op, ver, sq, pad] \<and> 0 \<le> len \<and> len < 2 ^ 32
      then Inr ([of_int op, of_int ver, of_int sq, of_int pad] @ be32 (nat len))
      else Inl StructError)"

text \<open>
  \<open>_vicp_send(sock, cmd)\<close>. \<open>vicp_frame\<close> is its first three statements, the bytes
  \<open>hdr + payload\<close> it hands to \<open>sendall\<close>.
\<close>

definition vicp_frame :: "int \<Rightarrow> str \<Rightarrow> (exn + bytes) \<times> int" where
  "vicp_frame q cmd =
     (case encode_ascii cmd of
        Inl e \<Rightarrow> (Inl e, q)
      | Inr payload \<Rightarrow>
          let op = 0x80 OR 0x40 OR 0x01;
              (n, q') = vicp_next_seq q
          in (case struct_pack_hdr op 0x01 n 0x00 (int (length payload)) of
                Inl e \<Rightarrow> (Inl e, q')
              | Inr hdr \<Rightarrow> (Inr (hdr @ payload), q')))"

definition vicp_send :: "sock \<Rightarrow> int \<Rightarrow> str \<Rightarrow> (exn + unit) \<times> sock \<times> int" where
  "vicp_send s q cmd =
     (case vicp_frame q cmd of
        (Inl e, q') \<Rightarrow> (Inl e, s, q')
      | (Inr data, q') \<Rightarrow>
          (case sendall s data of
             Inl e \<Rightarrow> (Inl e, s, q')
           | Inr s' \<Rightarrow> (Inr (), s', q')))"

section \<open>Image finalizer\<close>

text \<open>Python's slice \<open>xs[a:b]\<close> and index \<open>xs[i]\<close>, with negative positions.\<close>

definition py_slice :: "'a list \<Rightarrow> int \<Rightarrow> int \<Rightarrow> 'a list" where
  "py_slice xs a b =
     (let n = int (length xs);
          lo = (if a < 0 then max 0 (a + n) else min a n);
          hi = (if b < 0 then max 0 (b + n) else min b n)
      in take (nat (hi - lo)) (drop (nat lo) xs))"

definition py_index :: "'a list \<Rightarrow> int \<Rightarrow> exn + 'a" where
  "py_index xs i =
     (let n = int (length xs); j = (if i < 0 then i + n else i)
      in if 0 \<le> j \<and> j < n then Inr (xs ! nat j) else Inl IndexError)"

text \<open>
  \<open>int(chr(b))\<close> of one byte, and \<open>int(bs)\<close> of a bytes object: optional white space
  around, an optional sign, decimal digits with single underscores between them.
\<close>

definition is_space :: "byte \<Rightarrow> bool" where
  "is_space b = (b \<in> {0x20, 0x09, 0x0A, 0x0B, 0x0C, 0x0D})"

definition is_digit :: "byte \<Rightarrow> bool" where
  "is_digit b = (0x30 \<le> b \<and> b \<le> 0x39)"

definition dec_val :: "bytes \<Rightarrow> nat" where
  "dec_val ds = foldl (\<lambda>a c. 10 * a + (unat c - 48)) 0 ds"

definition int_of_chr :: "byte \<Rightarrow> exn + int" where
  "int_of_chr b = (if is_digit b then Inr (int (unat b - 48)) else Inl ValueError)"

definition int_of_bytes :: "bytes \<Rightarrow> exn + int" where
  "int_of_bytes bs =
     (let s1 = dropWhile is_space bs;
          neg = (s1 \<noteq> [] \<and> hd s1 = 0x2D);
          s2 = (if s1 \<noteq> [] \<and> (hd s1 = 0x2B \<or> hd s1 = 0x2D) then tl s1 else s1);
          body = takeWhile (\<lambda>c. is_digit c \<or> c = 0x5F) s2;
          trail = dropWhile (\<lambda>c. is_digit c \<or> c = 0x5F) s2
      in if body = [] \<or> hd body = 0x5F \<or> last body = 0x5F \<or> sublist [0x5F, 0x5F] body
            \<or> \<not> list_all is_space trail
         then Inl ValueError
         else Inr ((if neg then - 1 else 1) * int (dec_val (filter is_digit body))))"

text \<open>\<open>_strip_ieee_block(data)\<close>; every exception inside is caught and leaves \<open>data\<close> as it was.\<close>

definition strip_ieee_block :: "bytes \<Rightarrow> bytes" where
  "strip_ieee_block data =
     (if data \<noteq> [] \<and> py_slice data 0 1 = [0x23] then
        (case py_index data 1 of
           Inl e \<Rightarrow> data
         | Inr b \<Rightarrow>
             (case int_of_chr b of
                Inl e \<Rightarrow> data
              | Inr n_digits \<Rightarrow>
                  (case int_of_bytes (py_slice data 2 (2 + n_digits)) of
                     Inl e \<Rightarrow> data
                   | Inr byte_count \<Rightarrow>
                       py_slice data (2 + n_digits) (2 + n_digits + byte_count))))
      else data)"

text \<open>A bytes literal of the source.\<close>

definition ascii :: "string \<Rightarrow> bytes" where
  "ascii s = map of_char s"

section \<open>Text helpers\<close>

text \<open>
  \<open>str.strip()\<close> removes Unicode white space at both ends;
  \<open>bytes.decode("ascii", errors="replace")\<close> maps every byte above 127 to U+FFFD;
  \<open>s.split(sep)\<close> cuts at every occurrence of \<open>sep\<close>, left to right.
\<close>

definition py_isspace :: "nat \<Rightarrow> bool" where
  "py_isspace c = (c \<in> {9, 10, 11, 12, 13, 28, 29, 30, 31, 32, 0x85, 0xA0, 0x1680, 0x2028, 0x2029,
                        0x202F, 0x205F, 0x3000} \<or> (0x2000 \<le> c \<and> c \<le> 0x200A))"

definition py_strip :: "str \<Rightarrow> str" where
  "py_strip s = rev (dropWhile py_isspace (rev (dropWhile py_isspace s)))"

definition decode_ascii_replace :: "bytes \<Rightarrow> str" where
  "decode_ascii_replace bs = map (\<lambda>b. if unat b < 128 then unat b else 0xFFFD) bs"

function py_split_loop :: "'a list \<Rightarrow> 'a list \<Rightarrow> 'a list \<Rightarrow> 'a list list" where
  "py_split_loop sep cur s =
     (case s of
        [] \<Rightarrow> [cur]
      | x # xs \<Rightarrow>
          if sep \<noteq> [] \<and> prefix sep s then cur # py_split_loop sep [] (drop (length sep) s)
          else py_split_loop sep (cur @ [x]) xs)"
  by pat_completeness auto
termination
  by (relation "measure (\<lambda>(sep, cur, s). length s)") auto

declare py_split_loop.simps [simp del]

definition py_split :: "'a list \<Rightarrow> 'a list \<Rightarrow> exn + 'a list list" where
  "py_split s sep = (if sep = [] then Inl ValueError else Inr (py_split_loop sep [] s))"

section \<open>Vendor command sets over a VISA session\<close>

text \<open>
  The colour the commands carry: \<open>DISPLAY_COLOR.upper()\<close> when it is WHITE or BLACK, and
  WHITE otherwise. \<open>DISPLAY_COLOR\<close> is configuration; here it is a parameter.
\<close>

definition norm_color :: "str \<Rightarrow> str" where
  "norm_color dcol = (if upper dcol \<in> {py ''WHITE'', py ''BLACK''} then upper dcol else py ''WHITE'')"

definition hcsu :: "str \<Rightarrow> str" where
  "hcsu color = py ''HCSU DEV,BMP,FORMAT,PORTRAIT,BCKG,'' @ color @ py '',DEST,REMOTE,PORT,NET''"

text \<open>
  A VISA session. The instrument is a function from the calls made so far and the next
  call to its reply (\<open>Err\<close>: the call raises); \<open>calls\<close> is the log of the session.
  Setting an attribute is logged and does not fail. The pauses between commands are not
  modelled.
\<close>

datatype call = Write str | ReadRaw | Query str | QueryBinary str | SetTimeout int
  | SetReadTerm "str option" | SetWriteTerm "str option" | Close

datatype reply = Ack | Raw bytes | Text str | Err

record scope =
  dev :: "call list \<Rightarrow> call \<Rightarrow> reply"
  calls :: "call list"

definition scope_do :: "scope \<Rightarrow> call \<Rightarrow> reply \<times> scope" where
  "scope_do sc c = (dev sc (calls sc) c, sc\<lparr>calls := calls sc @ [c]\<rparr>)"

definition scope_set :: "scope \<Rightarrow> call \<Rightarrow> scope" where
  "scope_set sc c = sc\<lparr>calls := calls sc @ [c]\<rparr>"

definition scope_write :: "scope \<Rightarrow> str \<Rightarrow> (exn + unit) \<times> scope" where
  "scope_write sc cmd =
     (case scope_do sc (Write cmd) of
        (Err, sc') \<Rightarrow> (Inl VisaIOError, sc')
      | (_, sc') \<Rightarrow> (Inr (), sc'))"

definition scope_read_raw :: "scope \<Rightarrow> (exn + bytes) \<times> scope" where
  "scope_read_raw sc =
     (case scope_do sc ReadRaw of
        (Raw d, sc') \<Rightarrow> (Inr d, sc')
      | (_, sc') \<Rightarrow> (Inl VisaIOError, sc'))"

definition scope_query :: "scope \<Rightarrow> str \<Rightarrow> (exn + str) \<times> scope" where
  "scope_query sc cmd =
     (case scope_do sc (Query cmd) of
        (Text t, sc') \<Rightarrow> (Inr t, sc')
      | (_, sc') \<Rightarrow> (Inl VisaIOError, sc'))"

definition scope_query_binary_values :: "scope \<Rightarrow> str \<Rightarrow> (exn + bytes) \<times> scope" where
  "scope_query_binary_values sc cmd =
     (case scope_do sc (QueryBinary cmd) of
        (Raw d, sc') \<Rightarrow> (Inr d, sc')
      | (_, sc') \<Rightarrow> (Inl VisaIOError, sc'))"

text \<open>Sequencing: an exception skips what follows.\<close>

definition bnd :: "(exn + 'a) \<times> 's \<Rightarrow> ('a \<Rightarrow> 's \<Rightarrow> (exn + 'b) \<times> 's) \<Rightarrow> (exn + 'b) \<times> 's" where
  "bnd m f = (case m of (Inl e, s) \<Rightarrow> (Inl e, s) | (Inr a, s) \<Rightarrow> f a s)"

text \<open>\<open>_dump_lecroy\<close>, \<open>_dump_tektronix\<close>, \<open>_dump_keysight\<close>, \<open>_dump_rigol\<close>.\<close>

definition dump_lecroy :: "scope \<Rightarrow> str \<Rightarrow> (exn + bytes) \<times> scope" where
  "dump_lecroy scope color =
     bnd (scope_write scope (hcsu color)) (\<lambda>_ sc.
     bnd (scope_write sc (py ''SCREEN_DUMP'')) (\<lambda>_ sc.
     scope_read_raw (scope_set sc (SetReadTerm None))))"

definition dump_tektronix :: "scope \<Rightarrow> str \<Rightarrow> (exn + bytes) \<times> scope" where
  "dump_tektronix scope color =
     (let ink = (if color = py ''WHITE'' then py ''ON'' else py ''OFF'') in
      bnd (scope_write scope (py ''HARDcopy:PORT GPIB'')) (\<lambda>_ sc.
      bnd (scope_write sc (py ''HARDcopy:FORMat BMP'')) (\<lambda>_ sc.
      bnd (scope_write sc (py ''HARDcopy:INKSaver '' @ ink)) (\<lambda>_ sc.
      bnd (scope_write sc (py ''HARDcopy START'')) (\<lambda>_ sc.
      scope_read_raw (scope_set sc (SetReadTerm None)))))))"

definition dump_keysight :: "scope \<Rightarrow> str \<Rightarrow> (exn + bytes) \<times> scope" where
  "dump_keysight scope color =
     (let scheme = (if color = py ''WHITE'' then py ''INKS'' else py ''SCR'') in
      bnd (scope_write scope (py '':DISP:DATA PNG,'' @ scheme @ py '',COL'')) (\<lambda>_ sc.
      bnd (scope_query_binary_values (scope_set sc (SetReadTerm None))
             (py '':DISP:DATA? PNG,'' @ scheme @ py '',COL'')) (\<lambda>data sc.
      (Inr (if data \<noteq> [] then data else []), sc))))"

definition dump_rigol :: "scope \<Rightarrow> str \<Rightarrow> (exn + bytes) \<times> scope" where
  "dump_rigol scope color =
     (let arg = (if color = py ''WHITE'' then py ''OFF'' else py ''ON'') in
      bnd (scope_write scope (py '':DISP:DATA? ON,'' @ arg @ py '',PNG'')) (\<lambda>_ sc.
      bnd (scope_read_raw (scope_set sc (SetReadTerm None))) (\<lambda>data sc.
      if data = [] \<or> length data < 10 then
        bnd (scope_write sc (py '':DISP:DATA?'')) (\<lambda>_ sc. scope_read_raw sc)
      else (Inr data, sc))))"

text \<open>
  \<open>_screen_dump(scope, vendor)\<close>. \<open>try_methods\<close> is its loop over the four methods for an
  unknown vendor: an exception or a result of at most 100 bytes moves on to the next.
\<close>

fun try_methods ::
  "(scope \<Rightarrow> str \<Rightarrow> (exn + bytes) \<times> scope) list \<Rightarrow> scope \<Rightarrow> str \<Rightarrow> bytes option \<times> scope" where
  "try_methods [] scope color = (None, scope)"
| "try_methods (fn # fns) scope color =
     (case fn scope color of
        (Inr data, sc) \<Rightarrow>
          if data \<noteq> [] \<and> length data > 100 then (Some data, sc)
          else try_methods fns sc color
      | (Inl e, sc) \<Rightarrow> try_methods fns sc color)"

definition screen_dump :: "str \<Rightarrow> scope \<Rightarrow> str \<Rightarrow> (exn + bytes option) \<times> scope" where
  "screen_dump dcol scope vendor =
     (let color = norm_color dcol in
      if vendor = py ''LECROY'' then bnd (dump_lecroy scope color) (\<lambda>d sc. (Inr (Some d), sc))
      else if vendor = py ''TEKTRONIX''
        then bnd (dump_tektronix scope color) (\<lambda>d sc. (Inr (Some d), sc))
      else if vendor \<in> {py ''KEYSIGHT'', py ''AGILENT''}
        then bnd (dump_keysight scope color) (\<lambda>d sc. (Inr (Some d), sc))
      else if vendor \<in> {py ''RIGOL'', py ''SIGLENT''}
        then bnd (dump_rigol scope color) (\<lambda>d sc. (Inr (Some d), sc))
      else (case try_methods [dump_keysight, dump_rigol, dump_lecroy, dump_tektronix] scope color of
              (r, sc) \<Rightarrow> (Inr r, sc)))"


section \<open>The capture routines\<close>

text \<open>
  The world a capture runs in: what a TCP connection to a host and port gives (\<open>None\<close>:
  the connection fails with \<open>OSError\<close>), which VISA resource strings open and on what
  instrument (\<open>None\<close>: \<open>VisaIOError\<close>), whether the image file can be written, and the
  configured colour.
\<close>

record env =
  net :: "str \<Rightarrow> nat \<Rightarrow> sock option"
  visa :: "str \<Rightarrow> (call list \<Rightarrow> call \<Rightarrow> reply) option"
  disk_ok :: bool
  display_color :: str

text \<open>\<open>_save_image\<close>: it raises when the file cannot be written.\<close>

definition save_image :: "env \<Rightarrow> bytes \<Rightarrow> exn + unit" where
  "save_image E image_data = (if disk_ok E then Inr () else Inl OSError)"

text \<open>\<open>_dump_lecroy_vicp_raw(ip, color, timeout_sec)\<close>: result, socket and sequence counter.\<close>

definition dump_lecroy_vicp_raw ::
  "env \<Rightarrow> int \<Rightarrow> str \<Rightarrow> str \<Rightarrow> (exn + bytes) \<times> sock option \<times> int" where
  "dump_lecroy_vicp_raw E q ip color =
     (case net E ip 1861 of
        None \<Rightarrow> (Inl OSError, None, q)
      | Some s0 \<Rightarrow>
          (case vicp_send s0 q (hcsu color) of
             (Inl e, s1, q1) \<Rightarrow> (Inl e, Some s1, q1)
           | (Inr _, s1, q1) \<Rightarrow>
               (case vicp_send s1 q1 (py ''SCREEN_DUMP'') of
                  (Inl e, s2, q2) \<Rightarrow> (Inl e, Some s2, q2)
                | (Inr _, s2, q2) \<Rightarrow>
                    (case vicp_recv s2 of (data, s3) \<Rightarrow> (Inr data, Some s3, q2)))))"

text \<open>
  \<open>vicp_capture(ip, save_path, timeout_sec)\<close>. \<open>v_saved\<close> is the image handed to
  \<open>_save_image\<close>; an exception of \<open>_save_image\<close> leaves the function, every other
  one gives False. \<open>v_sock\<close> is the socket as the routine leaves it, with its log of
  sends. Closing the socket and the pauses between commands are not modelled.
\<close>

record vicp_out =
  v_result :: "exn + bool"
  v_sock :: "sock option"
  v_saved :: "bytes option"
  v_seq :: int

definition vicp_capture :: "env \<Rightarrow> int \<Rightarrow> str \<Rightarrow> vicp_out" where
  "vicp_capture E q ip =
     (let color = norm_color (display_color E) in
      case net E ip 1861 of
        None \<Rightarrow> \<lparr>v_result = Inr False, v_sock = None, v_saved = None, v_seq = q\<rparr>
      | Some s0 \<Rightarrow>
          (case vicp_send s0 q (py ''*IDN?'') of
             (Inl e, s1, q1) \<Rightarrow>
               \<lparr>v_result = Inr False, v_sock = Some s1, v_saved = None, v_seq = q1\<rparr>
           | (Inr _, s1, q1) \<Rightarrow>
               (case vicp_recv s1 of (idn_raw, s2) \<Rightarrow>
                  let idn = py_strip (decode_ascii_replace idn_raw);
                      vendor = detect_vendor idn
                  in if vendor \<noteq> py ''LECROY''
                     then \<lparr>v_result = Inr False, v_sock = Some s2, v_saved = None, v_seq = q1\<rparr>
                     else
                       (case vicp_send s2 q1 (hcsu color) of
                          (Inl e, s3, q2) \<Rightarrow>
                            \<lparr>v_result = Inr False, v_sock = Some s3, v_saved = None, v_seq = q2\<rparr>
                        | (Inr _, s3, q2) \<Rightarrow>
                            (case vicp_send s3 q2 (py ''SCREEN_DUMP'') of
                               (Inl e, s4, q3) \<Rightarrow>
                                 \<lparr>v_result = Inr False, v_sock = Some s4, v_saved = None,
                                  v_seq = q3\<rparr>
                             | (Inr _, s4, q3) \<Rightarrow>
                                 (case vicp_recv s4 of (image_data, s5) \<Rightarrow>
                                    if image_data = [] \<or> length image_data < 100
                                    then \<lparr>v_result = Inr False, v_sock = Some s5,
                                          v_saved = None, v_seq = q3\<rparr>
                                    else
                                      (let image_data' = strip_ieee_block image_data in
                                       case save_image E image_data' of
                                         Inl e \<Rightarrow>
                                           \<lparr>v_result = Inl e, v_sock = Some s5,
                                            v_saved = Some image_data', v_seq = q3\<rparr>
                                       | Inr _ \<Rightarrow>
                                           \<lparr>v_result = Inr True, v_sock = Some s5,
                                            v_saved = Some image_data', v_seq = q3\<rparr>)))))))"

text \<open>
  \<open>scpi_capture(resource_str, save_path, timeout_ms)\<close>: the suffix variants to open, the
  identity query, the branch taken when the image is too small (\<open>scpi_fallback\<close>), and
  the whole routine. Every exception after the session is opened gives False.
  \<open>s_scope\<close> is the session as the routine leaves it, with its log of calls (closing it
  is the call \<open>Close\<close>); \<open>s_dialed\<close> lists the raw connections attempted and
  \<open>s_sock\<close> is the raw socket; \<open>s_saved\<close> is the image handed to \<open>_save_image\<close>.
  The resource manager is taken to be available and is not modelled.
\<close>

definition candidates_of :: "str \<Rightarrow> str list" where
  "candidates_of resource_str =
     [resource_str] @
     (if suffix (py ''::INSTR'') resource_str
        then [py_slice resource_str 0 (- int (length (py ''INSTR''))) @ py ''INST'']
      else if suffix (py ''::INST'') resource_str
        then [py_slice resource_str 0 (- int (length (py ''INST''))) @ py ''INSTR'']
      else [])"

fun open_first :: "env \<Rightarrow> str list \<Rightarrow> scope option" where
  "open_first E [] = None"
| "open_first E (attempt # rest) =
     (case visa E attempt of
        Some d \<Rightarrow> Some \<lparr>dev = d, calls = []\<rparr>
      | None \<Rightarrow> open_first E rest)"

definition identify :: "scope \<Rightarrow> str \<times> scope" where
  "identify scope =
     (case scope_query scope (py ''*IDN?'') of
        (Inr t, sc) \<Rightarrow> (py_strip t, sc)
      | (Inl e, sc) \<Rightarrow> (py ''(no IDN response)'', sc))"

definition scope_init :: "scope \<Rightarrow> int \<Rightarrow> scope" where
  "scope_init scope timeout_ms =
     scope_set (scope_set (scope_set scope (SetTimeout timeout_ms)) (SetReadTerm (Some [10])))
       (SetWriteTerm (Some [10]))"

record scpi_out =
  s_result :: bool
  s_scope :: "scope option"
  s_dialed :: "(str \<times> nat) list"
  s_sock :: "sock option"
  s_saved :: "bytes option"
  s_seq :: int

definition scpi_fallback :: "env \<Rightarrow> int \<Rightarrow> str \<Rightarrow> str \<Rightarrow> scope \<Rightarrow> scpi_out" where
  "scpi_fallback E q resource_str vendor scope =
     (if vendor = py ''LECROY'' \<and> sublist (py ''TCPIP::'') (upper resource_str) then
        (case py_split resource_str (py ''::'') of
           Inl e \<Rightarrow>
             \<lparr>s_result = False, s_scope = Some (scope_set scope Close), s_dialed = [],
              s_sock = None, s_saved = None, s_seq = q\<rparr>
         | Inr parts \<Rightarrow>
             (case py_index parts 1 of
                Inl e \<Rightarrow>
                  \<lparr>s_result = False, s_scope = Some (scope_set scope Close), s_dialed = [],
                   s_sock = None, s_saved = None, s_seq = q\<rparr>
              | Inr ip \<Rightarrow>
                  (let color = norm_color (display_color E);
                       sc = scope_set scope Close
                   in case dump_lecroy_vicp_raw E q ip color of
                        (Inl e, so, q') \<Rightarrow>
                          \<lparr>s_result = False, s_scope = Some (scope_set sc Close),
                           s_dialed = [(ip, 1861)], s_sock = so, s_saved = None, s_seq = q'\<rparr>
                      | (Inr image_data, so, q') \<Rightarrow>
                          if image_data = [] \<or> length image_data < 100
                          then \<lparr>s_result = False, s_scope = Some (scope_set sc Close),
                                s_dialed = [(ip, 1861)], s_sock = so, s_saved = None,
                                s_seq = q'\<rparr>
                          else
                            (let image_data' = strip_ieee_block image_data in
                             case save_image E image_data' of
                               Inl e \<Rightarrow>
                                 \<lparr>s_result = False, s_scope = Some (scope_set sc Close),
                                  s_dialed = [(ip, 1861)], s_sock = so,
                                  s_saved = Some image_data', s_seq = q'\<rparr>
                             | Inr _ \<Rightarrow>
                                 \<lparr>s_result = True, s_scope = Some (scope_set sc Close),
                                  s_dialed = [(ip, 1861)], s_sock = so,
                                  s_saved = Some image_data', s_seq = q'\<rparr>))))
      else \<lparr>s_result = False, s_scope = Some (scope_set scope Close), s_dialed = [],
            s_sock = None, s_saved = None, s_seq = q\<rparr>)"

definition scpi_capture :: "env \<Rightarrow> int \<Rightarrow> str \<Rightarrow> int \<Rightarrow> scpi_out" where
  "scpi_capture E q resource_str timeout_ms =
     (case open_first E (candidates_of resource_str) of
        None \<Rightarrow>
          \<lparr>s_result = False, s_scope = None, s_dialed = [], s_sock = None, s_saved = None,
           s_seq = q\<rparr>
      | Some scope \<Rightarrow>
          (case identify (scope_init scope timeout_ms) of (idn, sc) \<Rightarrow>
             (let vendor = detect_vendor idn in
              (case screen_dump (display_color E) sc vendor of
                 (Inl e, sc') \<Rightarrow>
                   \<lparr>s_result = False, s_scope = Some (scope_set sc' Close), s_dialed = [],
                    s_sock = None, s_saved = None, s_seq = q\<rparr>
               | (Inr image_data, sc') \<Rightarrow>
                   (case image_data of
                      None \<Rightarrow> scpi_fallback E q resource_str vendor sc'
                    | Some data \<Rightarrow>
                        if data = [] \<or> length data < 100
                        then scpi_fallback E q resource_str vendor sc'
                        else
                          (let data' = strip_ieee_block data in
                           (case save_image E data' of
                              Inl e \<Rightarrow>
                                \<lparr>s_result = False, s_scope = Some (scope_set sc' Close),
                                 s_dialed = [], s_sock = None, s_saved = Some data',
                                 s_seq = q\<rparr>
                            | Inr _ \<Rightarrow>
                                \<lparr>s_result = True, s_scope = Some (scope_set sc' Close),
                                 s_dialed = [], s_sock = None, s_saved = Some data',
                                 s_seq = q\<rparr>)))))))"

chapter \<open>Properties\<close>

section \<open>Frames on the wire\<close>

text \<open>
  The bytes a socket delivers before the stream ends (by close, failure or timeout),
  whatever the chunking.
\<close>

fun avail :: "event list \<Rightarrow> bytes" where
  "avail [] = []"
| "avail (Fail e # evs) = []"
| "avail (Recv c # evs) = (if c = [] then [] else c @ avail evs)"

text \<open>
  A frame as the wire protocol has it: the 8-byte header with the operation flags, and the
  payload. \<open>DATA\<close> is bit 7 and \<open>EOI\<close> bit 0 of the flags.
\<close>

record frame =
  f_op :: byte
  f_ver :: byte
  f_seq :: byte
  f_pad :: byte
  f_payload :: bytes

definition wire :: "frame \<Rightarrow> bytes" where
  "wire f = [f_op f, f_ver f, f_seq f, f_pad f] @ be32 (length (f_payload f)) @ f_payload f"

definition is_data :: "frame \<Rightarrow> bool" where
  "is_data f = (f_op f AND 0x80 \<noteq> 0)"

definition has_eoi :: "frame \<Rightarrow> bool" where
  "has_eoi f = (f_op f AND 0x01 \<noteq> 0)"

definition wf_frame :: "frame \<Rightarrow> bool" where
  "wf_frame f = (length (f_payload f) < 2 ^ 32)"

definition data_payloads :: "frame list \<Rightarrow> bytes" where
  "data_payloads fs = concat (map f_payload (filter is_data fs))"

definition set_eoi :: "frame \<Rightarrow> frame" where
  "set_eoi f = f\<lparr>f_op := f_op f OR 0x01\<rparr>"

section \<open>Basic facts\<close>

lemma py_eq_iff [simp]: "py a = py b \<longleftrightarrow> a = b"
  unfolding py_def by (rule inj_map_eq_map) (simp add: inj_on_def)

lemma py_append: "py (a @ b) = py a @ py b"
  by (simp add: py_def)

section \<open>Reading exactly n bytes\<close>

lemma sock_recv_avail:
  assumes "avail (rx s) \<noteq> []" "0 < n"
  obtains c s' where "sock_recv n s = (Inr c, s')" "c \<noteq> []" "length c \<le> n"
    "c @ avail (rx s') = avail (rx s)"
proof -
  from assms(1) obtain c evs where r: "rx s = Recv c # evs" and c: "c \<noteq> []"
    by (cases "rx s" rule: avail.cases) (auto split: if_splits)
  show thesis
  proof (cases "length c \<le> n")
    case True
    with r c have "sock_recv n s = (Inr c, s\<lparr>rx := evs\<rparr>)" by (simp add: sock_recv_def)
    with that [of c "s\<lparr>rx := evs\<rparr>"] r c True show thesis by simp
  next
    case False
    with r c have "sock_recv n s = (Inr (take n c), s\<lparr>rx := Recv (drop n c) # evs\<rparr>)"
      by (simp add: sock_recv_def)
    with that [of "take n c" "s\<lparr>rx := Recv (drop n c) # evs\<rparr>"] r c False assms(2)
    show thesis by simp
  qed
qed

lemma sock_recv_no_avail:
  assumes "avail (rx s) = []"
  shows "(\<exists>e s'. sock_recv n s = (Inl e, s')) \<or> (\<exists>s'. sock_recv n s = (Inr [], s'))"
  using assms by (cases "rx s" rule: avail.cases) (auto simp: sock_recv_def split: if_splits)

lemma recv_exact_loop_avail:
  "length buf \<le> n \<Longrightarrow> n - length buf \<le> length (avail (rx s)) \<Longrightarrow>
   \<exists>s'. recv_exact_loop n buf s = (Inr (buf @ take (n - length buf) (avail (rx s))), s')
        \<and> avail (rx s') = drop (n - length buf) (avail (rx s))"
proof (induction n buf s rule: recv_exact_loop.induct)
  case (1 n buf s)
  show ?case
  proof (cases "length buf < n")
    case False
    with "1.prems" have "length buf = n" by simp
    then show ?thesis by (simp add: recv_exact_loop.simps [of n buf s])
  next
    case True
    with "1.prems" have "avail (rx s) \<noteq> []" by auto
    then obtain c s1 where r: "sock_recv (n - length buf) s = (Inr c, s1)" and c: "c \<noteq> []"
      and lc: "length c \<le> n - length buf" and av: "c @ avail (rx s1) = avail (rx s)"
      using True by (auto elim: sock_recv_avail [of s "n - length buf"])
    have step: "recv_exact_loop n buf s = recv_exact_loop n (buf @ c) s1"
      using True r c by (simp add: recv_exact_loop.simps [of n buf s])
    have l1: "length (buf @ c) \<le> n" using lc True by simp
    have "length (avail (rx s)) = length c + length (avail (rx s1))"
      using av [symmetric] by simp
    with "1.prems" have l2: "n - length (buf @ c) \<le> length (avail (rx s1))" by simp
    from "1.IH" [OF True r [symmetric] refl c l1 l2]
    obtain s' where
      res: "recv_exact_loop n (buf @ c) s1
              = (Inr ((buf @ c) @ take (n - length (buf @ c)) (avail (rx s1))), s')"
      and av': "avail (rx s') = drop (n - length (buf @ c)) (avail (rx s1))"
      by blast
    have t: "take (n - length buf) (avail (rx s)) = c @ take (n - length (buf @ c)) (avail (rx s1))"
      using lc by (simp add: av [symmetric])
    have d: "drop (n - length buf) (avail (rx s)) = drop (n - length (buf @ c)) (avail (rx s1))"
      using lc by (simp add: av [symmetric])
    show ?thesis using step res av' t d by simp
  qed
qed

lemma recv_exact_loop_short:
  "length (avail (rx s)) < n - length buf \<Longrightarrow> \<exists>e s'. recv_exact_loop n buf s = (Inl e, s')"
proof (induction n buf s rule: recv_exact_loop.induct)
  case (1 n buf s)
  from "1.prems" have lt: "length buf < n" by simp
  show ?case
  proof (cases "avail (rx s) = []")
    case True
    from sock_recv_no_avail [OF True, of "n - length buf"] lt show ?thesis
      by (auto simp: recv_exact_loop.simps [of n buf s])
  next
    case False
    then obtain c s1 where r: "sock_recv (n - length buf) s = (Inr c, s1)" and c: "c \<noteq> []"
      and lc: "length c \<le> n - length buf" and av: "c @ avail (rx s1) = avail (rx s)"
      using lt by (auto elim: sock_recv_avail [of s "n - length buf"])
    have step: "recv_exact_loop n buf s = recv_exact_loop n (buf @ c) s1"
      using lt r c by (simp add: recv_exact_loop.simps [of n buf s])
    have "length (avail (rx s)) = length c + length (avail (rx s1))"
      using av [symmetric] by simp
    with "1.prems" have l2: "length (avail (rx s1)) < n - length (buf @ c)" by simp
    from "1.IH" [OF lt r [symmetric] refl c l2] step show ?thesis by simp
  qed
qed

lemma recv_exact_avail:
  "n \<le> length (avail (rx s)) \<Longrightarrow>
   \<exists>s'. recv_exact n s = (Inr (take n (avail (rx s))), s') \<and> avail (rx s') = drop n (avail (rx s))"
  using recv_exact_loop_avail [of "[]" n s] by (simp add: recv_exact_def)

lemma recv_exact_short:
  "length (avail (rx s)) < n \<Longrightarrow> \<exists>e s'. recv_exact n s = (Inl e, s')"
  using recv_exact_loop_short [of s n "[]"] by (simp add: recv_exact_def)

lemma struct_unpack_hdr_be32:
  "n < 2 ^ 32 \<Longrightarrow> struct_unpack_hdr ([a, b, c, d] @ be32 n) = Inr (a, b, c, d, n)"
  using be32_val_be32 [of n] by (simp add: struct_unpack_hdr_def be32_def)


section \<open>Decoding a sequence of frames\<close>

definition data_of :: "frame \<Rightarrow> bytes" where
  "data_of f = (if is_data f then f_payload f else [])"

lemma data_payloads_Nil [simp]: "data_payloads [] = []"
  by (simp add: data_payloads_def)

lemma data_payloads_Cons [simp]: "data_payloads (f # fs) = data_of f @ data_payloads fs"
  by (simp add: data_payloads_def data_of_def)

lemma data_payloads_append [simp]:
  "data_payloads (fs @ gs) = data_payloads fs @ data_payloads gs"
  by (simp add: data_payloads_def)

lemma length_be32 [simp]: "length (be32 n) = 4"
  by (simp add: be32_def)

lemma vicp_recv_loop_frame:
  assumes wf: "wf_frame f" and av: "avail (rx s) = wire f @ rest"
  shows "\<exists>s'. avail (rx s') = rest
          \<and> vicp_recv_loop img s
              = (if has_eoi f then (img @ data_of f, s')
                 else vicp_recv_loop (img @ data_of f) s')"
proof -
  define hdr where "hdr = [f_op f, f_ver f, f_seq f, f_pad f] @ be32 (length (f_payload f))"
  have len8: "length hdr = 8" by (simp add: hdr_def)
  have av2: "avail (rx s) = hdr @ f_payload f @ rest"
    using av by (simp add: wire_def hdr_def)
  from recv_exact_avail [of 8 s] av2 len8
  obtain s1 where r1: "recv_exact 8 s = (Inr hdr, s1)"
    and a1: "avail (rx s1) = f_payload f @ rest"
    by auto
  have un: "struct_unpack_hdr hdr
              = Inr (f_op f, f_ver f, f_seq f, f_pad f, length (f_payload f))"
    unfolding hdr_def using wf by (intro struct_unpack_hdr_be32) (simp add: wf_frame_def)
  show ?thesis
  proof (cases "f_payload f = []")
    case True
    with r1 un a1 show ?thesis
      by (intro exI [of _ s1])
         (simp add: vicp_recv_loop.simps [of img s] data_of_def has_eoi_def)
  next
    case False
    from recv_exact_avail [of "length (f_payload f)" s1] a1
    obtain s2 where r2: "recv_exact (length (f_payload f)) s1 = (Inr (f_payload f), s2)"
      and a2: "avail (rx s2) = rest"
      by auto
    with r1 un False show ?thesis
      by (intro exI [of _ s2])
         (simp add: vicp_recv_loop.simps [of img s] data_of_def has_eoi_def is_data_def)
  qed
qed

lemma vicp_recv_loop_frames:
  "list_all wf_frame pre \<Longrightarrow> list_all (\<lambda>g. \<not> has_eoi g) pre \<Longrightarrow>
   avail (rx s) = concat (map wire pre) @ rest \<Longrightarrow>
   \<exists>s'. avail (rx s') = rest
        \<and> vicp_recv_loop img s = vicp_recv_loop (img @ data_payloads pre) s'"
proof (induction pre arbitrary: img s)
  case Nil
  then show ?case by auto
next
  case (Cons f pre)
  from Cons.prems have wf: "wf_frame f" and ne: "\<not> has_eoi f"
    and av: "avail (rx s) = wire f @ (concat (map wire pre) @ rest)"
    by simp_all
  from vicp_recv_loop_frame [OF wf av, of img] ne
  obtain s1 where a1: "avail (rx s1) = concat (map wire pre) @ rest"
    and st: "vicp_recv_loop img s = vicp_recv_loop (img @ data_of f) s1"
    by auto
  from Cons.IH [OF _ _ a1, of "img @ data_of f"] Cons.prems
  obtain s' where "avail (rx s') = rest"
    and "vicp_recv_loop (img @ data_of f) s1
           = vicp_recv_loop ((img @ data_of f) @ data_payloads pre) s'"
    by auto
  with st show ?case by auto
qed

lemma vicp_recv_loop_eoi:
  assumes "list_all wf_frame (pre @ [f])" "list_all (\<lambda>g. \<not> has_eoi g) pre" "has_eoi f"
    "avail (rx s) = concat (map wire (pre @ [f])) @ rest"
  shows "\<exists>s'. avail (rx s') = rest
          \<and> vicp_recv_loop img s = (img @ data_payloads (pre @ [f]), s')"
proof -
  from assms have av: "avail (rx s) = concat (map wire pre) @ (wire f @ rest)" by simp
  from vicp_recv_loop_frames [OF _ assms(2) av, of img] assms(1)
  obtain s1 where a1: "avail (rx s1) = wire f @ rest"
    and st: "vicp_recv_loop img s = vicp_recv_loop (img @ data_payloads pre) s1"
    by auto
  from assms(1) have "wf_frame f" by simp
  from vicp_recv_loop_frame [OF this a1, of "img @ data_payloads pre"] assms(3) st
  show ?thesis by auto
qed

lemma vicp_recv_loop_partial:
  assumes wf: "wf_frame g" and sp: "strict_prefix part (wire g)" and av: "avail (rx s) = part"
  shows "fst (vicp_recv_loop img s) = img"
proof (cases "length part < 8")
  case True
  with av recv_exact_short [of s 8] obtain e s1 where "recv_exact 8 s = (Inl e, s1)"
    by auto
  then show ?thesis by (simp add: vicp_recv_loop.simps [of img s])
next
  case False
  define hdr where "hdr = [f_op g, f_ver g, f_seq g, f_pad g] @ be32 (length (f_payload g))"
  have len8: "length hdr = 8" by (simp add: hdr_def)
  from sp obtain z where z: "wire g = part @ z" "z \<noteq> []"
    by (auto simp: strict_prefix_def prefix_def)
  have w: "wire g = hdr @ f_payload g" by (simp add: wire_def hdr_def)
  have "take 8 part = hdr"
    using False z(1) w len8 by (metis append_eq_conv_conj not_less take_append
        append_take_drop_id take_all_iff diff_is_0_eq' take_0 append_Nil2)
  then obtain p where p: "part = hdr @ p" by (metis append_take_drop_id)
  with z w have pz: "f_payload g = p @ z" by simp
  from recv_exact_avail [of 8 s] av p len8
  obtain s1 where r1: "recv_exact 8 s = (Inr hdr, s1)" and a1: "avail (rx s1) = p"
    by auto
  have un: "struct_unpack_hdr hdr
              = Inr (f_op g, f_ver g, f_seq g, f_pad g, length (f_payload g))"
    unfolding hdr_def using wf by (intro struct_unpack_hdr_be32) (simp add: wf_frame_def)
  have "length (avail (rx s1)) < length (f_payload g)" using a1 pz z(2) by simp
  from recv_exact_short [OF this] obtain e s2
    where r2: "recv_exact (length (f_payload g)) s1 = (Inl e, s2)" by auto
  from pz z(2) have "f_payload g \<noteq> []" by simp
  with r1 un r2 show ?thesis
    by (simp add: vicp_recv_loop.simps [of img s])
qed

lemma set_eoi_facts:
  "has_eoi (set_eoi f)" "is_data (set_eoi f) = is_data f" "f_payload (set_eoi f) = f_payload f"
  "wf_frame (set_eoi f) = wf_frame f"
  by (simp_all add: has_eoi_def set_eoi_def is_data_def wf_frame_def bit.conj_disj_distrib2)


lemma data_of_set_eoi: "data_of (set_eoi f) = data_of f"
  by (simp add: data_of_def set_eoi_facts)

lemma sock_recv_tx:
  "sock_recv n s = (r, s') \<Longrightarrow> tx s' = tx s \<and> tx_left s' = tx_left s"
  by (auto simp: sock_recv_def split: list.splits event.splits if_splits)

lemma recv_exact_loop_tx:
  "recv_exact_loop n buf s = (r, s') \<Longrightarrow> tx s' = tx s \<and> tx_left s' = tx_left s"
proof (induction n buf s rule: recv_exact_loop.induct)
  case (1 n buf s)
  show ?case
  proof (cases "length buf < n")
    case False
    with "1.prems" show ?thesis by (simp add: recv_exact_loop.simps)
  next
    case True
    obtain q t where st: "sock_recv (n - length buf) s = (q, t)"
      by (cases "sock_recv (n - length buf) s")
    note eq = sock_recv_tx [OF st]
    show ?thesis
    proof (cases q)
      case (Inl e)
      with True st "1.prems" eq show ?thesis
        by (simp add: recv_exact_loop.simps [of n buf s])
    next
      case (Inr chunk)
      show ?thesis
      proof (cases "chunk = []")
        case True
        with \<open>length buf < n\<close> Inr st "1.prems" eq show ?thesis
          by (simp add: recv_exact_loop.simps [of n buf s])
      next
        case False
        with \<open>length buf < n\<close> Inr st "1.prems"
        have "recv_exact_loop n (buf @ chunk) t = (r, s')"
          by (simp add: recv_exact_loop.simps [of n buf s])
        from "1.IH" [OF \<open>length buf < n\<close> st [symmetric] Inr False this] eq
        show ?thesis by simp
      qed
    qed
  qed
qed

lemma recv_exact_facts:
  "recv_exact n s = (r, s') \<Longrightarrow>
   tx s' = tx s \<and> tx_left s' = tx_left s \<and> (0 < n \<longrightarrow> \<not> isl r \<longrightarrow> size_rx s' < size_rx s)"
  using recv_exact_loop_tx [of n "[]" s r s'] recv_exact_size_strict [of n s _ s']
  by (cases r) (auto simp: recv_exact_def)

lemma vicp_recv_loop_tx:
  "tx (snd (vicp_recv_loop img s)) = tx s \<and> tx_left (snd (vicp_recv_loop img s)) = tx_left s"
proof (induction "size_rx s" arbitrary: img s rule: less_induct)
  case less
  show ?case
    by (subst (1 2) vicp_recv_loop.simps)
       (auto simp: Let_def less split: prod.splits sum.splits dest!: recv_exact_facts)
qed

section \<open>Claims C1 and C2: decoding a stream\<close>

text \<open>
  Claim C1. Frames \<open>pre @ [f]\<close>, all well formed, arrive in order in any chunking;
  \<open>f\<close> is the first with EOI. The decoder returns the payloads of the DATA frames among
  them in arrival order, that of \<open>f\<close> exactly when \<open>f\<close> has DATA, and reads nothing
  behind \<open>f\<close>.
\<close>

theorem vicp_recv_eoi_terminated:
  assumes "list_all wf_frame (pre @ [f])" "list_all (\<lambda>g. \<not> has_eoi g) pre" "has_eoi f"
    "avail (rx s) = concat (map wire (pre @ [f])) @ rest"
  shows "fst (vicp_recv s) = concat (map f_payload (filter is_data (pre @ [f])))
         \<and> fst (vicp_recv s)
             = concat (map f_payload (filter is_data pre))
               @ (if is_data f then f_payload f else [])
         \<and> avail (rx (snd (vicp_recv s))) = rest"
proof -
  from vicp_recv_loop_eoi [OF assms, of "[]"]
  obtain s' where "avail (rx s') = rest" "vicp_recv s = (data_payloads (pre @ [f]), s')"
    by (auto simp: vicp_recv_def)
  then show ?thesis by (simp add: data_payloads_def)
qed


theorem vicp_recv_eoi_terminated_witness:
  "fst (vicp_recv \<lparr>rx = [Recv [0x80, 1, 1, 0, 0, 0], Recv [0, 2, 7, 8, 0x08, 1, 2, 0, 0, 0, 0, 1, 9],
                         Recv [0x81, 1, 3, 0, 0, 0, 0, 1, 5, 0x80]],
                   tx = [], tx_left = 0\<rparr>) = [7, 8, 5]
   \<and> avail (rx (snd (vicp_recv \<lparr>rx = [Recv [0x80, 1, 1, 0, 0, 0],
                         Recv [0, 2, 7, 8, 0x08, 1, 2, 0, 0, 0, 0, 1, 9],
                         Recv [0x81, 1, 3, 0, 0, 0, 0, 1, 5, 0x80]],
                   tx = [], tx_left = 0\<rparr>))) = [0x80]"
proof -
  define f1 where "f1 = \<lparr>f_op = 0x80, f_ver = 1, f_seq = 1, f_pad = 0, f_payload = [7, 8 :: byte]\<rparr>"
  define f2 where "f2 = \<lparr>f_op = 0x08, f_ver = 1, f_seq = 2, f_pad = 0, f_payload = [9 :: byte]\<rparr>"
  define f3 where "f3 = \<lparr>f_op = 0x81, f_ver = 1, f_seq = 3, f_pad = 0, f_payload = [5 :: byte]\<rparr>"
  define s where "s = \<lparr>rx = [Recv [0x80, 1, 1, 0, 0, 0],
                         Recv [0, 2, 7, 8, 0x08, 1, 2, 0, 0, 0, 0, 1, 9],
                         Recv [0x81, 1, 3, 0, 0, 0, 0, 1, 5, 0x80]],
                   tx = [], tx_left = 0\<rparr>"
  have 1: "list_all wf_frame ([f1, f2] @ [f3])" by (simp add: wf_frame_def f1_def f2_def f3_def)
  have 2: "list_all (\<lambda>g. \<not> has_eoi g) [f1, f2]" by (simp add: has_eoi_def f1_def f2_def)
  have 3: "has_eoi f3" by (simp add: has_eoi_def f3_def)
  have 4: "avail (rx s) = concat (map wire ([f1, f2] @ [f3])) @ [0x80]"
    by (simp add: wire_def be32_def s_def f1_def f2_def f3_def)
  from vicp_recv_eoi_terminated [OF 1 2 3 4]
  show ?thesis by (simp add: is_data_def f1_def f2_def f3_def s_def)
qed

text \<open>
  Claim C2. The stream ends (close, failed read or timeout) after the complete frames
  \<open>fs\<close>, none with EOI, possibly in the middle of a further frame. The decoder returns
  the payloads of the DATA frames of \<open>fs\<close>: the result it gives when the last frame
  carries EOI; and the empty byte string when fewer than 8 bytes arrived. The result is a
  value of the function: no exception leaves \<open>_vicp_recv\<close>.
\<close>

theorem vicp_recv_early_close:
  assumes "list_all wf_frame fs" "list_all (\<lambda>g. \<not> has_eoi g) fs"
    "wf_frame g" "strict_prefix part (wire g)"
    "avail (rx s) = concat (map wire fs) @ part"
  shows "fst (vicp_recv s) = concat (map f_payload (filter is_data fs))
         \<and> (fs \<noteq> [] \<longrightarrow>
              (\<forall>t. avail (rx t) = concat (map wire (butlast fs @ [set_eoi (last fs)]))
                   \<longrightarrow> fst (vicp_recv t) = fst (vicp_recv s)))
         \<and> (length (avail (rx s)) < 8 \<longrightarrow> fst (vicp_recv s) = [])"
proof -
  from vicp_recv_loop_frames [OF assms(1,2,5), of "[]"]
  obtain s1 where a1: "avail (rx s1) = part"
    and st: "vicp_recv_loop [] s = vicp_recv_loop (data_payloads fs) s1"
    by auto
  from vicp_recv_loop_partial [OF assms(3,4) a1, of "data_payloads fs"] st
  have main: "fst (vicp_recv s) = data_payloads fs"
    by (simp add: vicp_recv_def)
  have eoi: "fst (vicp_recv t) = fst (vicp_recv s)"
    if ne: "fs \<noteq> []"
      and t: "avail (rx t) = concat (map wire (butlast fs @ [set_eoi (last fs)]))" for t
  proof -
    from ne have split: "fs = butlast fs @ [last fs]" by simp
    have w1: "list_all wf_frame (butlast fs @ [set_eoi (last fs)])"
      using assms(1) ne by (auto simp: list_all_iff set_eoi_facts dest: in_set_butlastD)
    have w2: "list_all (\<lambda>g. \<not> has_eoi g) (butlast fs)"
      using assms(2) by (auto simp: list_all_iff dest: in_set_butlastD)
    from t have t': "avail (rx t) = concat (map wire (butlast fs @ [set_eoi (last fs)])) @ []"
      by simp
    from vicp_recv_loop_eoi [OF w1 w2 set_eoi_facts(1) t', of "[]"]
    have "fst (vicp_recv t) = data_payloads (butlast fs @ [set_eoi (last fs)])"
      by (auto simp: vicp_recv_def)
    also have "\<dots> = data_payloads (butlast fs @ [last fs])"
      by (simp add: data_of_set_eoi)
    also have "\<dots> = data_payloads fs" using split by simp
    finally show ?thesis using main by simp
  qed
  have short: "fst (vicp_recv s) = []" if "length (avail (rx s)) < 8"
  proof -
    from recv_exact_short [OF that] obtain e s' where "recv_exact 8 s = (Inl e, s')" by auto
    then show ?thesis by (simp add: vicp_recv_def vicp_recv_loop.simps [of "[]" s])
  qed
  from main eoi short show ?thesis by (auto simp: data_payloads_def)
qed

theorem vicp_recv_early_close_witness:
  "fst (vicp_recv \<lparr>rx = [Recv [0x80, 1, 1, 0, 0, 0], Recv [0, 3, 1, 2, 3, 0x80, 1], Recv []],
                   tx = [], tx_left = 0\<rparr>) = [1, 2, 3]"
proof -
  define f where "f = \<lparr>f_op = 0x80, f_ver = 1, f_seq = 1, f_pad = 0, f_payload = [1, 2, 3 :: byte]\<rparr>"
  define s where "s = \<lparr>rx = [Recv [0x80, 1, 1, 0, 0, 0], Recv [0, 3, 1, 2, 3, 0x80, 1], Recv []],
                   tx = [], tx_left = 0\<rparr>"
  have w: "wire f = [0x80, 1, 1, 0, 0, 0, 0, 3, 1, 2, 3]"
    by (simp add: wire_def f_def be32_def)
  have 1: "list_all wf_frame [f]" by (simp add: wf_frame_def f_def)
  have 2: "list_all (\<lambda>g. \<not> has_eoi g) [f]" by (simp add: has_eoi_def f_def)
  have 3: "wf_frame f" by (simp add: wf_frame_def f_def)
  have 4: "strict_prefix [0x80, 1] (wire f)" by (simp add: w)
  have 5: "avail (rx s) = concat (map wire [f]) @ [0x80, 1]" by (simp add: w s_def)
  from vicp_recv_early_close [OF 1 2 3 4 5]
  have "fst (vicp_recv s) = concat (map f_payload (filter is_data [f]))" by blast
  then show ?thesis by (simp add: is_data_def f_def s_def)
qed

section \<open>Claim C6: encoding a command\<close>

lemma vicp_frame_ascii:
  assumes "list_all (\<lambda>c. c < 128) cmd" "length cmd < 2 ^ 32"
  shows "vicp_frame q cmd
           = (Inr ([0x80 OR 0x40 OR 0x01, 0x01, word_of_int (q mod 255 + 1), 0x00]
                   @ be32 (length cmd) @ map of_nat cmd), q mod 255 + 1)"
  using assms
  by (simp add: vicp_frame_def encode_ascii_def vicp_next_seq_def struct_pack_hdr_def Let_def)

lemma vicp_frame_non_ascii:
  "\<not> list_all (\<lambda>c. c < 128) cmd \<Longrightarrow> vicp_frame q cmd = (Inl UnicodeEncodeError, q)"
  by (simp add: vicp_frame_def encode_ascii_def)

lemma vicp_frame_too_long:
  "list_all (\<lambda>c. c < 128) cmd \<Longrightarrow> 2 ^ 32 \<le> length cmd
     \<Longrightarrow> vicp_frame q cmd = (Inl StructError, q mod 255 + 1)"
  by (simp add: vicp_frame_def encode_ascii_def vicp_next_seq_def struct_pack_hdr_def Let_def)

lemma vicp_send_ok:
  assumes "list_all (\<lambda>c. c < 128) cmd" "length cmd < 2 ^ 32" "0 < tx_left s"
  shows "vicp_send s q cmd
           = (Inr (),
              s\<lparr>tx := tx s @ [[0x80 OR 0x40 OR 0x01, 0x01, word_of_int (q mod 255 + 1), 0x00]
                                @ be32 (length cmd) @ map of_nat cmd],
                tx_left := tx_left s - 1\<rparr>,
              q mod 255 + 1)"
  using assms(3) by (simp add: vicp_send_def vicp_frame_ascii [OF assms(1,2)] sendall_def)

lemma vicp_send_broken:
  assumes "list_all (\<lambda>c. c < 128) cmd" "length cmd < 2 ^ 32" "tx_left s = 0"
  shows "vicp_send s q cmd = (Inl OSError, s, q mod 255 + 1)"
  using assms(3) by (simp add: vicp_send_def vicp_frame_ascii [OF assms(1,2)] sendall_def)

text \<open>
  Claim C6, as the code has it. For every command of ASCII characters only, shorter than
  \<open>2^32\<close>, and every prior counter state, the frame is the 8-byte header (flags with
  DATA, REMOTE and EOI, version 1, the next sequence number, a zero pad byte, the payload
  length as a big-endian 32-bit integer) followed by the ASCII bytes of the command, and
  \<open>_vicp_send\<close> hands exactly this frame to the socket; when the socket refuses the
  send the exception leaves \<open>_vicp_send\<close> with the counter advanced. A command with a
  character that is not ASCII raises \<open>UnicodeEncodeError\<close>: nothing is sent and the counter
  keeps its value. An ASCII command of \<open>2^32\<close> characters or more raises in
  \<open>struct.pack\<close>, after the counter has advanced, and nothing is sent. The sequence
  number is \<open>q mod 255 + 1\<close>, always in 1..255, the successor of the counter below 255
  and 1 after 255. The counter is the module's, not the socket's: a send on a socket
  \<open>s2\<close> that follows a send on another socket \<open>s\<close> carries the number after the one
  used on \<open>s\<close>.
\<close>

theorem vicp_send_frame:
  "(list_all (\<lambda>c. c < 128) cmd \<and> length cmd < 2 ^ 32 \<longrightarrow>
      vicp_frame q cmd
        = (Inr ([0x80 OR 0x40 OR 0x01, 0x01, word_of_int (q mod 255 + 1), 0x00]
                @ be32 (length cmd) @ map of_nat cmd), q mod 255 + 1)
      \<and> struct_unpack_hdr
            ([0x80 OR 0x40 OR 0x01, 0x01, word_of_int (q mod 255 + 1), 0x00]
             @ be32 (length cmd))
          = Inr (0xC1, 0x01, word_of_int (q mod 255 + 1), 0x00,
                 length (map of_nat cmd :: bytes))
      \<and> (0 < tx_left s \<longrightarrow>
            vicp_send s q cmd
              = (Inr (),
                 s\<lparr>tx := tx s @ [[0x80 OR 0x40 OR 0x01, 0x01, word_of_int (q mod 255 + 1), 0x00]
                                   @ be32 (length cmd) @ map of_nat cmd],
                   tx_left := tx_left s - 1\<rparr>,
                 q mod 255 + 1))
      \<and> (tx_left s = 0 \<longrightarrow> vicp_send s q cmd = (Inl OSError, s, q mod 255 + 1)))
   \<and> (\<not> list_all (\<lambda>c. c < 128) cmd \<longrightarrow>
        vicp_frame q cmd = (Inl UnicodeEncodeError, q)
        \<and> vicp_send s q cmd = (Inl UnicodeEncodeError, s, q))
   \<and> (list_all (\<lambda>c. c < 128) cmd \<and> 2 ^ 32 \<le> length cmd \<longrightarrow>
        vicp_frame q cmd = (Inl StructError, q mod 255 + 1)
        \<and> vicp_send s q cmd = (Inl StructError, s, q mod 255 + 1))
   \<and> uint (word_of_int (q mod 255 + 1) :: byte) = q mod 255 + 1
   \<and> 1 \<le> q mod 255 + 1 \<and> q mod 255 + 1 \<le> 255
   \<and> (0 \<le> q \<and> q < 255 \<longrightarrow> q mod 255 + 1 = q + 1)
   \<and> (q = 255 \<longrightarrow> q mod 255 + 1 = 1)
   \<and> (list_all (\<lambda>c. c < 128) cmd \<and> length cmd < 2 ^ 32
        \<and> list_all (\<lambda>c. c < 128) cmd2 \<and> length cmd2 < 2 ^ 32 \<and> 0 < tx_left s2 \<longrightarrow>
        vicp_send s2 (snd (snd (vicp_send s q cmd))) cmd2
          = (Inr (),
             s2\<lparr>tx := tx s2 @ [[0x80 OR 0x40 OR 0x01, 0x01,
                                   word_of_int ((q mod 255 + 1) mod 255 + 1), 0x00]
                                  @ be32 (length cmd2) @ map of_nat cmd2],
                tx_left := tx_left s2 - 1\<rparr>,
             (q mod 255 + 1) mod 255 + 1))"
proof -
  have ok: "list_all (\<lambda>c. c < 128) cmd \<and> length cmd < 2 ^ 32 \<longrightarrow>
      vicp_frame q cmd
        = (Inr ([0x80 OR 0x40 OR 0x01, 0x01, word_of_int (q mod 255 + 1), 0x00]
                @ be32 (length cmd) @ map of_nat cmd), q mod 255 + 1)
      \<and> struct_unpack_hdr
            ([0x80 OR 0x40 OR 0x01, 0x01, word_of_int (q mod 255 + 1), 0x00]
             @ be32 (length cmd))
          = Inr (0xC1, 0x01, word_of_int (q mod 255 + 1), 0x00,
                 length (map of_nat cmd :: bytes))
      \<and> (0 < tx_left s \<longrightarrow>
            vicp_send s q cmd
              = (Inr (),
                 s\<lparr>tx := tx s @ [[0x80 OR 0x40 OR 0x01, 0x01, word_of_int (q mod 255 + 1), 0x00]
                                   @ be32 (length cmd) @ map of_nat cmd],
                   tx_left := tx_left s - 1\<rparr>,
                 q mod 255 + 1))
      \<and> (tx_left s = 0 \<longrightarrow> vicp_send s q cmd = (Inl OSError, s, q mod 255 + 1))"
  proof (intro impI, elim conjE)
    assume a: "list_all (\<lambda>c. c < 128) cmd" and l: "length cmd < 2 ^ 32"
    have f: "vicp_frame q cmd
        = (Inr ([0x80 OR 0x40 OR 0x01, 0x01, word_of_int (q mod 255 + 1), 0x00]
                @ be32 (length cmd) @ map of_nat cmd), q mod 255 + 1)"
      by (rule vicp_frame_ascii [OF a l])
    have u: "struct_unpack_hdr
            ([0x80 OR 0x40 OR 0x01, 0x01, word_of_int (q mod 255 + 1), 0x00]
             @ be32 (length cmd))
          = Inr (0xC1, 0x01, word_of_int (q mod 255 + 1), 0x00,
                 length (map of_nat cmd :: bytes))"
      using struct_unpack_hdr_be32 [OF l] by simp
    have s1: "0 < tx_left s \<longrightarrow>
            vicp_send s q cmd
              = (Inr (),
                 s\<lparr>tx := tx s @ [[0x80 OR 0x40 OR 0x01, 0x01, word_of_int (q mod 255 + 1), 0x00]
                                   @ be32 (length cmd) @ map of_nat cmd],
                   tx_left := tx_left s - 1\<rparr>,
                 q mod 255 + 1)"
      using vicp_send_ok [OF a l] by blast
    have s2: "tx_left s = 0 \<longrightarrow> vicp_send s q cmd = (Inl OSError, s, q mod 255 + 1)"
      using vicp_send_broken [OF a l] by blast
    from f u s1 s2 show "vicp_frame q cmd
        = (Inr ([0x80 OR 0x40 OR 0x01, 0x01, word_of_int (q mod 255 + 1), 0x00]
                @ be32 (length cmd) @ map of_nat cmd), q mod 255 + 1)
      \<and> struct_unpack_hdr
            ([0x80 OR 0x40 OR 0x01, 0x01, word_of_int (q mod 255 + 1), 0x00]
             @ be32 (length cmd))
          = Inr (0xC1, 0x01, word_of_int (q mod 255 + 1), 0x00,
                 length (map of_nat cmd :: bytes))
      \<and> (0 < tx_left s \<longrightarrow>
            vicp_send s q cmd
              = (Inr (),
                 s\<lparr>tx := tx s @ [[0x80 OR 0x40 OR 0x01, 0x01, word_of_int (q mod 255 + 1), 0x00]
                                   @ be32 (length cmd) @ map of_nat cmd],
                   tx_left := tx_left s - 1\<rparr>,
                 q mod 255 + 1))
      \<and> (tx_left s = 0 \<longrightarrow> vicp_send s q cmd = (Inl OSError, s, q mod 255 + 1))"
      by (intro conjI)
  qed
  have na: "\<not> list_all (\<lambda>c. c < 128) cmd \<longrightarrow>
        vicp_frame q cmd = (Inl UnicodeEncodeError, q)
        \<and> vicp_send s q cmd = (Inl UnicodeEncodeError, s, q)"
    by (simp add: vicp_send_def vicp_frame_non_ascii)
  have tl: "list_all (\<lambda>c. c < 128) cmd \<and> 2 ^ 32 \<le> length cmd \<longrightarrow>
        vicp_frame q cmd = (Inl StructError, q mod 255 + 1)
        \<and> vicp_send s q cmd = (Inl StructError, s, q mod 255 + 1)"
    by (simp add: vicp_send_def vicp_frame_too_long)
  have "uint (word_of_int (q mod 255 + 1) :: byte) = (q mod 255 + 1) mod 2 ^ LENGTH(8)"
    by (rule uint_word_of_int)
  also have "\<dots> = q mod 255 + 1"
    by simp
  finally have w: "uint (word_of_int (q mod 255 + 1) :: byte) = q mod 255 + 1" .
  have r: "1 \<le> q mod 255 + 1" "q mod 255 + 1 \<le> 255"
    "0 \<le> q \<and> q < 255 \<longrightarrow> q mod 255 + 1 = q + 1"
    "q = 255 \<longrightarrow> q mod 255 + 1 = 1"
    by simp_all
  have sh: "list_all (\<lambda>c. c < 128) cmd \<and> length cmd < 2 ^ 32
        \<and> list_all (\<lambda>c. c < 128) cmd2 \<and> length cmd2 < 2 ^ 32 \<and> 0 < tx_left s2 \<longrightarrow>
        vicp_send s2 (snd (snd (vicp_send s q cmd))) cmd2
          = (Inr (),
             s2\<lparr>tx := tx s2 @ [[0x80 OR 0x40 OR 0x01, 0x01,
                                   word_of_int ((q mod 255 + 1) mod 255 + 1), 0x00]
                                  @ be32 (length cmd2) @ map of_nat cmd2],
                tx_left := tx_left s2 - 1\<rparr>,
             (q mod 255 + 1) mod 255 + 1)"
  proof (intro impI, elim conjE)
    assume a: "list_all (\<lambda>c. c < 128) cmd" and l: "length cmd < 2 ^ 32"
      and a2: "list_all (\<lambda>c. c < 128) cmd2" and l2: "length cmd2 < 2 ^ 32"
      and t2: "0 < tx_left s2"
    have q': "snd (snd (vicp_send s q cmd)) = q mod 255 + 1"
    proof (cases "tx_left s = 0")
      case True
      then show ?thesis by (simp add: vicp_send_broken [OF a l])
    next
      case False
      then show ?thesis by (simp add: vicp_send_ok [OF a l])
    qed
    show "vicp_send s2 (snd (snd (vicp_send s q cmd))) cmd2
          = (Inr (),
             s2\<lparr>tx := tx s2 @ [[0x80 OR 0x40 OR 0x01, 0x01,
                                   word_of_int ((q mod 255 + 1) mod 255 + 1), 0x00]
                                  @ be32 (length cmd2) @ map of_nat cmd2],
                tx_left := tx_left s2 - 1\<rparr>,
             (q mod 255 + 1) mod 255 + 1)"
      unfolding q' by (rule vicp_send_ok [OF a2 l2 t2])
  qed
  from ok na tl w r sh show ?thesis by (intro conjI)
qed

theorem vicp_send_frame_witness:
  "vicp_frame 0 (py ''*IDN?'')
     = (Inr [0xC1, 0x01, 0x01, 0x00, 0x00, 0x00, 0x00, 0x05, 0x2A, 0x49, 0x44, 0x4E, 0x3F], 1)
   \<and> vicp_send \<lparr>rx = [], tx = [], tx_left = 1\<rparr> 255 (py ''*IDN?'')
     = (Inr (),
        \<lparr>rx = [],
         tx = [[0xC1, 0x01, 0x01, 0x00, 0x00, 0x00, 0x00, 0x05, 0x2A, 0x49, 0x44, 0x4E, 0x3F]],
         tx_left = 0\<rparr>, 1)
   \<and> vicp_send \<lparr>rx = [], tx = [], tx_left = 0\<rparr> 3 (py ''*IDN?'')
     = (Inl OSError, \<lparr>rx = [], tx = [], tx_left = 0\<rparr>, 4)
   \<and> vicp_send \<lparr>rx = [], tx = [], tx_left = 1\<rparr> 3 (py ''HCSU'' @ [233])
     = (Inl UnicodeEncodeError, \<lparr>rx = [], tx = [], tx_left = 1\<rparr>, 3)
   \<and> vicp_send \<lparr>rx = [], tx = [], tx_left = 1\<rparr> 3 (replicate (2 ^ 32) 65)
     = (Inl StructError, \<lparr>rx = [], tx = [], tx_left = 1\<rparr>, 4)
   \<and> vicp_send \<lparr>rx = [], tx = [[1]], tx_left = 2\<rparr>
        (snd (snd (vicp_send \<lparr>rx = [], tx = [], tx_left = 1\<rparr> 254 (py ''*IDN?''))))
        (py ''*IDN?'')
     = (Inr (),
        \<lparr>rx = [],
         tx = [[1], [0xC1, 0x01, 0x01, 0x00, 0x00, 0x00, 0x00, 0x05, 0x2A, 0x49, 0x44, 0x4E, 0x3F]],
         tx_left = 1\<rparr>, 1)"
proof -
  have a: "list_all (\<lambda>c. c < 128) (py ''*IDN?'')" by (simp add: py_def)
  have l: "length (py ''*IDN?'') < 2 ^ 32" by (simp add: py_def)
  have n: "\<not> list_all (\<lambda>c. c < 128) (py ''HCSU'' @ [233])" by simp
  have b: "list_all (\<lambda>c. c < 128) (replicate (2 ^ 32) (65 :: nat))
           \<and> 2 ^ 32 \<le> length (replicate (2 ^ 32) (65 :: nat))"
    by (simp add: list_all_iff)
  have 1: "vicp_frame 0 (py ''*IDN?'')
     = (Inr [0xC1, 0x01, 0x01, 0x00, 0x00, 0x00, 0x00, 0x05, 0x2A, 0x49, 0x44, 0x4E, 0x3F], 1)"
    using vicp_send_frame [of "py ''*IDN?''" 0 "\<lparr>rx = [], tx = [], tx_left = 1\<rparr>"] a l
    by (simp add: py_def be32_def)
  have 2: "vicp_send \<lparr>rx = [], tx = [], tx_left = 1\<rparr> 255 (py ''*IDN?'')
     = (Inr (),
        \<lparr>rx = [],
         tx = [[0xC1, 0x01, 0x01, 0x00, 0x00, 0x00, 0x00, 0x05, 0x2A, 0x49, 0x44, 0x4E, 0x3F]],
         tx_left = 0\<rparr>, 1)"
    using vicp_send_frame [of "py ''*IDN?''" 255 "\<lparr>rx = [], tx = [], tx_left = 1\<rparr>"] a l
    by (simp add: py_def be32_def)
  have 3: "vicp_send \<lparr>rx = [], tx = [], tx_left = 0\<rparr> 3 (py ''*IDN?'')
     = (Inl OSError, \<lparr>rx = [], tx = [], tx_left = 0\<rparr>, 4)"
    using vicp_send_frame [of "py ''*IDN?''" 3 "\<lparr>rx = [], tx = [], tx_left = 0\<rparr>"] a l
    by simp
  have 4: "vicp_send \<lparr>rx = [], tx = [], tx_left = 1\<rparr> 3 (py ''HCSU'' @ [233])
     = (Inl UnicodeEncodeError, \<lparr>rx = [], tx = [], tx_left = 1\<rparr>, 3)"
    using vicp_send_frame [of "py ''HCSU'' @ [233]" 3 "\<lparr>rx = [], tx = [], tx_left = 1\<rparr>"] n
    by blast
  have 5: "vicp_send \<lparr>rx = [], tx = [], tx_left = 1\<rparr> 3 (replicate (2 ^ 32) 65)
     = (Inl StructError, \<lparr>rx = [], tx = [], tx_left = 1\<rparr>, 4)"
    using vicp_send_frame [of "replicate (2 ^ 32) 65" 3 "\<lparr>rx = [], tx = [], tx_left = 1\<rparr>"] b
    by simp
  have 6: "vicp_send \<lparr>rx = [], tx = [[1]], tx_left = 2\<rparr>
        (snd (snd (vicp_send \<lparr>rx = [], tx = [], tx_left = 1\<rparr> 254 (py ''*IDN?''))))
        (py ''*IDN?'')
     = (Inr (),
        \<lparr>rx = [],
         tx = [[1], [0xC1, 0x01, 0x01, 0x00, 0x00, 0x00, 0x00, 0x05, 0x2A, 0x49, 0x44, 0x4E, 0x3F]],
         tx_left = 1\<rparr>, 1)"
  proof -
    have h: "0 < tx_left \<lparr>rx = [], tx = [[1 :: byte]], tx_left = 2\<rparr>" by simp
    from vicp_send_frame [of "py ''*IDN?''" 254 "\<lparr>rx = [], tx = [], tx_left = 1\<rparr>"
                              "py ''*IDN?''" "\<lparr>rx = [], tx = [[1]], tx_left = 2\<rparr>"] a l h
    have e: "vicp_send \<lparr>rx = [], tx = [[1]], tx_left = 2\<rparr>
               (snd (snd (vicp_send \<lparr>rx = [], tx = [], tx_left = 1\<rparr> 254 (py ''*IDN?''))))
               (py ''*IDN?'')
             = (Inr (),
                \<lparr>rx = [], tx = [[1]], tx_left = 2\<rparr>
                  \<lparr>tx := tx \<lparr>rx = [], tx = [[1]], tx_left = 2\<rparr>
                          @ [[0x80 OR 0x40 OR 0x01, 0x01,
                              word_of_int ((254 mod 255 + 1) mod 255 + 1), 0x00]
                             @ be32 (length (py ''*IDN?'')) @ map of_nat (py ''*IDN?'')],
                    tx_left := tx_left \<lparr>rx = [], tx = [[1 :: byte]], tx_left = 2\<rparr> - 1\<rparr>,
                (254 mod 255 + 1) mod 255 + 1)"
      by blast
    show ?thesis unfolding e by (simp add: py_def be32_def)
  qed
  from 1 2 3 4 5 6 show ?thesis by (intro conjI)
qed

text \<open>
  Claim C6 as stated fails for a command that is not ASCII: for the one-character command
  U+00E9 the encoding raises \<open>UnicodeEncodeError\<close>, no frame is produced and
  \<open>_vicp_send\<close> sends nothing. The counter is not kept per connection either: the first
  frame sent on a fresh socket carries the number 1 when nothing was sent before, and the
  number 2 after one frame was sent on another socket.
\<close>

theorem vicp_send_non_ascii_counterexample:
  "vicp_frame 0 [233] = (Inl UnicodeEncodeError, 0)
   \<and> vicp_send \<lparr>rx = [], tx = [], tx_left = 1\<rparr> 0 [233]
       = (Inl UnicodeEncodeError, \<lparr>rx = [], tx = [], tx_left = 1\<rparr>, 0)
   \<and> vicp_send \<lparr>rx = [], tx = [], tx_left = 1\<rparr> 0 (py ''*IDN?'')
       = (Inr (),
          \<lparr>rx = [],
           tx = [[0xC1, 0x01, 0x01, 0x00, 0x00, 0x00, 0x00, 0x05, 0x2A, 0x49, 0x44, 0x4E, 0x3F]],
           tx_left = 0\<rparr>, 1)
   \<and> vicp_send \<lparr>rx = [], tx = [], tx_left = 1\<rparr>
        (snd (snd (vicp_send \<lparr>rx = [Recv [7]], tx = [], tx_left = 1\<rparr> 0 (py ''*IDN?''))))
        (py ''*IDN?'')
       = (Inr (),
          \<lparr>rx = [],
           tx = [[0xC1, 0x01, 0x02, 0x00, 0x00, 0x00, 0x00, 0x05, 0x2A, 0x49, 0x44, 0x4E, 0x3F]],
           tx_left = 0\<rparr>, 2)"
  by (simp add: vicp_send_def vicp_frame_def encode_ascii_def vicp_next_seq_def
        struct_pack_hdr_def sendall_def be32_def py_def Let_def)

section \<open>Claim C7: the image finalizer\<close>

lemma is_digit_not_space: "is_digit c \<Longrightarrow> \<not> is_space c"
  by (auto simp: is_digit_def is_space_def)

lemma is_digit_not_sign: "is_digit c \<Longrightarrow> c \<noteq> 0x2B \<and> c \<noteq> 0x2D \<and> c \<noteq> 0x5F"
  by (auto simp: is_digit_def)

lemma int_of_bytes_digits:
  assumes ne: "digs \<noteq> []" and dg: "list_all is_digit digs"
  shows "int_of_bytes digs = Inr (int (dec_val digs))"
proof -
  from ne obtain c cs where d: "digs = c # cs" by (cases digs) auto
  from dg d have c: "is_digit c" by simp
  have all: "\<forall>x \<in> set digs. is_digit x" using dg by (simp add: list_all_iff)
  have s1: "dropWhile is_space digs = digs"
    using c d by (simp add: is_digit_not_space)
  have hdd: "hd digs \<noteq> 0x2B" "hd digs \<noteq> 0x2D" "hd digs \<noteq> 0x5F"
    using c d is_digit_not_sign by auto
  have body: "takeWhile (\<lambda>c. is_digit c \<or> c = 0x5F) digs = digs"
    using all by simp
  have trail: "dropWhile (\<lambda>c. is_digit c \<or> c = 0x5F) digs = []"
    using all by simp
  have "last digs \<in> set digs" using ne by simp
  with all have ld: "last digs \<noteq> 0x5F" using is_digit_not_sign by blast
  have nu: "\<not> sublist [0x5F, 0x5F] digs"
  proof
    assume "sublist [0x5F, 0x5F] digs"
    then have "set [0x5F, 0x5F :: byte] \<subseteq> set digs" by (rule set_mono_sublist)
    with all is_digit_not_sign show False by auto
  qed
  have fl: "filter is_digit digs = digs" using all by simp
  show ?thesis
    using ne hdd ld nu
    by (simp add: int_of_bytes_def Let_def s1 body trail fl)
qed

lemma digit_byte:
  assumes "d \<le> 9"
  shows "is_digit (of_nat (48 + d))" "unat (of_nat (48 + d) :: byte) - 48 = d"
proof -
  have "unat (of_nat (48 + d) :: byte) = (48 + d) mod 2 ^ LENGTH(8)"
    by (rule unat_of_nat)
  also have "\<dots> = 48 + d" using assms by simp
  finally have u: "unat (of_nat (48 + d) :: byte) = 48 + d" .
  show "is_digit (of_nat (48 + d))"
    unfolding is_digit_def word_le_nat_alt u using assms by simp
  show "unat (of_nat (48 + d) :: byte) - 48 = d"
    unfolding u by simp
qed

lemma strip_ieee_block_header:
  assumes ne: "digs \<noteq> []" and le: "length digs \<le> 9" and dg: "list_all is_digit digs"
  shows "strip_ieee_block ([0x23, of_nat (48 + length digs)] @ digs @ rest)
           = take (dec_val digs) rest"
proof -
  define d where "d = length digs"
  define db :: byte where "db = of_nat (48 + d)"
  define data where "data = [0x23, db] @ digs @ rest"
  have len: "length data = 2 + d + length rest" by (simp add: data_def d_def)
  have a: "data \<noteq> []" "py_slice data 0 1 = [0x23]"
    by (simp_all add: data_def py_slice_def)
  have b: "py_index data 1 = Inr db"
    by (simp add: py_index_def data_def)
  have c: "int_of_chr db = Inr (int d)"
    unfolding db_def int_of_chr_def using digit_byte [of d] le by (simp only: d_def if_True)
  have "py_slice data 2 (2 + int d) = take d (drop 2 data)"
    by (simp add: py_slice_def len Let_def)
  also have "\<dots> = digs" by (simp add: data_def d_def)
  finally have e: "py_slice data 2 (2 + int d) = digs" .
  have f: "int_of_bytes digs = Inr (int (dec_val digs))"
    by (rule int_of_bytes_digits [OF ne dg])
  have "py_slice data (2 + int d) (2 + int d + int (dec_val digs))
          = take (min (dec_val digs) (length rest)) (drop (2 + d) data)"
    by (simp add: py_slice_def len Let_def min_def nat_add_distrib)
  also have "\<dots> = take (dec_val digs) rest"
    by (simp add: data_def d_def min_def)
  finally have g: "py_slice data (2 + int d) (2 + int d + int (dec_val digs))
                     = take (dec_val digs) rest" .
  have "strip_ieee_block data = take (dec_val digs) rest"
    by (simp add: strip_ieee_block_def a b c e f g)
  then show ?thesis unfolding data_def db_def d_def .
qed

lemma strip_ieee_block_no_marker:
  "data = [] \<or> hd data \<noteq> 0x23 \<Longrightarrow> strip_ieee_block data = data"
  by (cases data) (auto simp: strip_ieee_block_def py_slice_def)

lemma strip_ieee_block_bad_digit:
  "\<not> is_digit b \<Longrightarrow> strip_ieee_block (0x23 # b # t) = 0x23 # b # t"
  by (simp add: strip_ieee_block_def py_index_def int_of_chr_def)

lemma strip_ieee_block_bad_count:
  assumes "is_digit b" "int_of_bytes (take (unat b - 48) t) = Inl e"
  shows "strip_ieee_block (0x23 # b # t) = 0x23 # b # t"
proof -
  have "py_slice (0x23 # b # t) 2 (2 + int (unat b - 48)) = take (unat b - 48) t"
    by (simp add: py_slice_def Let_def min_def)
  with assms show ?thesis
    by (simp add: strip_ieee_block_def py_index_def int_of_chr_def)
qed


text \<open>
  Claim C7, as the code has it. Input that is empty or does not start with \<open>#\<close> comes
  back unchanged. After \<open>#\<close>, a digit giving the number (1 to 9) of length digits, and
  that many ASCII digits encoding a count, the result is the first count bytes that
  follow: exactly count bytes when that many are there. A lone \<open>#\<close>, a second byte that
  is no digit, and a length field that \<open>int\<close> rejects (as for \<open>#0\<close>) leave the input
  unchanged. The function always returns bytes.
\<close>

theorem strip_ieee_block_envelope:
  "((data = [] \<or> hd data \<noteq> 0x23) \<longrightarrow> strip_ieee_block data = data)
   \<and> (digs \<noteq> [] \<and> length digs \<le> 9 \<and> list_all is_digit digs \<and> dec_val digs = length payload
        \<longrightarrow> strip_ieee_block ([0x23, of_nat (48 + length digs)] @ digs @ payload @ extra)
              = payload)
   \<and> (digs \<noteq> [] \<and> length digs \<le> 9 \<and> list_all is_digit digs
        \<longrightarrow> strip_ieee_block ([0x23, of_nat (48 + length digs)] @ digs @ rest)
              = take (dec_val digs) rest)
   \<and> strip_ieee_block [0x23] = [0x23]
   \<and> (\<not> is_digit b \<longrightarrow> strip_ieee_block (0x23 # b # t) = 0x23 # b # t)
   \<and> (is_digit b \<and> int_of_bytes (take (unat b - 48) t) = Inl e
        \<longrightarrow> strip_ieee_block (0x23 # b # t) = 0x23 # b # t)
   \<and> strip_ieee_block (0x23 # 0x30 # t) = 0x23 # 0x30 # t"
proof -
  have 1: "(data = [] \<or> hd data \<noteq> 0x23) \<longrightarrow> strip_ieee_block data = data"
    using strip_ieee_block_no_marker by blast
  have 2: "digs \<noteq> [] \<and> length digs \<le> 9 \<and> list_all is_digit digs \<and> dec_val digs = length payload
        \<longrightarrow> strip_ieee_block ([0x23, of_nat (48 + length digs)] @ digs @ payload @ extra)
              = payload"
    using strip_ieee_block_header [of digs "payload @ extra"] by simp
  have 3: "digs \<noteq> [] \<and> length digs \<le> 9 \<and> list_all is_digit digs
        \<longrightarrow> strip_ieee_block ([0x23, of_nat (48 + length digs)] @ digs @ rest)
              = take (dec_val digs) rest"
    using strip_ieee_block_header [of digs rest] by simp
  have 4: "strip_ieee_block [0x23] = [0x23]"
    by (simp add: strip_ieee_block_def py_index_def)
  have 5: "\<not> is_digit b \<longrightarrow> strip_ieee_block (0x23 # b # t) = 0x23 # b # t"
    using strip_ieee_block_bad_digit by blast
  have 6: "is_digit b \<and> int_of_bytes (take (unat b - 48) t) = Inl e
        \<longrightarrow> strip_ieee_block (0x23 # b # t) = 0x23 # b # t"
    using strip_ieee_block_bad_count by blast
  have "is_digit 0x30" by (simp add: is_digit_def)
  moreover have "int_of_bytes (take (unat (0x30 :: byte) - 48) t) = Inl ValueError"
    by (simp add: int_of_bytes_def)
  ultimately have 7: "strip_ieee_block (0x23 # 0x30 # t) = 0x23 # 0x30 # t"
    by (rule strip_ieee_block_bad_count)
  from 1 2 3 4 5 6 7 show ?thesis by (intro conjI)
qed

theorem strip_ieee_block_envelope_witness:
  "strip_ieee_block (ascii ''#3120'' @ replicate 120 0x42 @ ascii ''tail'') = replicate 120 0x42
   \<and> strip_ieee_block (ascii ''BM6'') = ascii ''BM6''
   \<and> strip_ieee_block (ascii ''#x12'') = ascii ''#x12''
   \<and> strip_ieee_block (ascii ''#2+_abc'') = ascii ''#2+_abc''"
proof -
  have d: "ascii ''120'' \<noteq> [] \<and> length (ascii ''120'') \<le> 9 \<and> list_all is_digit (ascii ''120'')
           \<and> dec_val (ascii ''120'') = length (replicate 120 (0x42 :: byte))"
    by (simp add: ascii_def is_digit_def dec_val_def)
  have h: "ascii ''#3120'' @ replicate 120 0x42 @ ascii ''tail''
             = [0x23, of_nat (48 + length (ascii ''120''))] @ ascii ''120''
               @ replicate 120 0x42 @ ascii ''tail''"
    by (simp add: ascii_def)
  have n: "ascii ''BM6'' = [] \<or> hd (ascii ''BM6'') \<noteq> 0x23" by (simp add: ascii_def)
  have x: "\<not> is_digit (of_char CHR ''x'')" by (simp add: is_digit_def)
  have u: "is_digit (of_char CHR ''2'')
           \<and> int_of_bytes (take (unat (of_char CHR ''2'' :: byte) - 48) (ascii ''+_abc''))
               = Inl ValueError"
    by (simp add: is_digit_def int_of_bytes_def is_space_def ascii_def)
  from strip_ieee_block_envelope [of "ascii ''BM6''" "ascii ''120''" "replicate 120 0x42"
      "ascii ''tail''" "[]" "of_char CHR ''x''" "ascii ''12''" ValueError]
    strip_ieee_block_envelope [of "[]" "[]" "[]" "[]" "[]" "of_char CHR ''2''" "ascii ''+_abc''"
      ValueError]
    d h n x u
  show ?thesis by (simp add: ascii_def)
qed

text \<open>
  Claim C7 as stated fails on \<open>#15abc\<close>: the header announces 5 bytes and 3 follow;
  the result is those 3 bytes, neither 5 bytes nor the unchanged input.
\<close>

theorem strip_ieee_block_truncated_counterexample:
  "strip_ieee_block (ascii ''#15abc'') = ascii ''abc''
   \<and> strip_ieee_block (ascii ''#15abc'') \<noteq> ascii ''#15abc''
   \<and> length (strip_ieee_block (ascii ''#15abc'')) \<noteq> 5"
proof -
  have "strip_ieee_block (ascii ''#15abc'') = ascii ''abc''"
    by (simp add: strip_ieee_block_def ascii_def py_slice_def py_index_def int_of_chr_def
      int_of_bytes_def is_digit_def is_space_def dec_val_def sublist_Cons_right Let_def)
  then show ?thesis by (simp add: ascii_def)
qed

section \<open>Claim C8: the connection resolver\<close>

text \<open>
  Claim C8, as the code has it. For every host and hinted port the candidate list is the
  VXI-11 form, the HiSLIP form and exactly one raw-socket form, in that order; the socket
  port is the hinted port when one is given (any value other than 0) and 5025, the raw
  SCPI port, when the hint is 0. The list is a function of host and port alone, so
  repeated calls agree.
\<close>

theorem build_ethernet_resources_candidates:
  "build_ethernet_resources ip port =
     [py ''TCPIP::'' @ ip @ py ''::inst0::INSTR'',
      py ''TCPIP::'' @ ip @ py ''::hislip0::INSTR'',
      py ''TCPIP::'' @ ip @ py ''::'' @ show_int (if port = 0 then 5025 else port)
        @ py ''::SOCKET'']"
  by (simp add: build_ethernet_resources_def)

theorem build_ethernet_resources_candidates_witness:
  "build_ethernet_resources (py ''10.0.0.5'') 0 =
     [py ''TCPIP::10.0.0.5::inst0::INSTR'',
      py ''TCPIP::10.0.0.5::hislip0::INSTR'',
      py ''TCPIP::10.0.0.5::5025::SOCKET'']
   \<and> build_ethernet_resources (py ''10.0.0.5'') 5555 =
     [py ''TCPIP::10.0.0.5::inst0::INSTR'',
      py ''TCPIP::10.0.0.5::hislip0::INSTR'',
      py ''TCPIP::10.0.0.5::5555::SOCKET'']"
  using build_ethernet_resources_candidates [of "py ''10.0.0.5''" 0]
    build_ethernet_resources_candidates [of "py ''10.0.0.5''" 5555]
  by (simp add: py_def show_int_def show_nat.simps)

text \<open>
  Claim C8 as stated fails: with no port given (hint 0) the raw-socket candidate does not
  use 1861, the lower-numbered of the two well-known ports the function knows (1861 and
  5025), but 5025.
\<close>

theorem build_ethernet_resources_default_port_counterexample:
  "build_ethernet_resources (py ''10.0.0.5'') 0 ! 2 = py ''TCPIP::10.0.0.5::5025::SOCKET''
   \<and> build_ethernet_resources (py ''10.0.0.5'') 0 ! 2 \<noteq> py ''TCPIP::10.0.0.5::1861::SOCKET''"
  by (simp add: build_ethernet_resources_def py_def show_int_def show_nat.simps)

section \<open>Claim C9: vendor tags\<close>

text \<open>
  Claim C9, as the code has it. Every identity string maps to one of the seven tags
  LECROY, TEKTRONIX, KEYSIGHT, RIGOL, SIGLENT, RNS, UNKNOWN, and a string whose upper-case
  form contains none of the twelve vendor substrings maps to UNKNOWN.
\<close>

theorem detect_vendor_tags:
  "detect_vendor idn \<in> {py ''LECROY'', py ''TEKTRONIX'', py ''KEYSIGHT'', py ''RIGOL'',
                         py ''SIGLENT'', py ''RNS'', py ''UNKNOWN''}
   \<and> ((\<forall>v \<in> {''LECROY'', ''TELEDYNE'', ''TEKTRONIX'', ''TEK'', ''KEYSIGHT'', ''AGILENT'',
              ''HEWLETT'', ''RIGOL'', ''SIGLENT'', ''ROHDE'', ''ROHDE&SCHWARZ'', ''R&S''}.
          \<not> sublist (py v) (upper idn))
        \<longrightarrow> detect_vendor idn = py ''UNKNOWN'')"
  unfolding detect_vendor_def Let_def by simp

theorem detect_vendor_tags_witness:
  "list_all (\<lambda>v. \<not> sublist (py v) (upper (py ''ACME,Model1,SN1,FW1'')))
     [''LECROY'', ''TELEDYNE'', ''TEKTRONIX'', ''TEK'', ''KEYSIGHT'', ''AGILENT'',
      ''HEWLETT'', ''RIGOL'', ''SIGLENT'', ''ROHDE'', ''ROHDE&SCHWARZ'', ''R&S'']
   \<and> detect_vendor (py ''ACME,Model1,SN1,FW1'') = py ''UNKNOWN''"
proof -
  have h: "list_all (\<lambda>v. \<not> sublist (py v) (upper (py ''ACME,Model1,SN1,FW1'')))
     [''LECROY'', ''TELEDYNE'', ''TEKTRONIX'', ''TEK'', ''KEYSIGHT'', ''AGILENT'',
      ''HEWLETT'', ''RIGOL'', ''SIGLENT'', ''ROHDE'', ''ROHDE&SCHWARZ'', ''R&S'']"
    by (simp add: py_def upper_def upper_cp_def sublist_Cons_right)
  then have "\<forall>v \<in> {''LECROY'', ''TELEDYNE'', ''TEKTRONIX'', ''TEK'', ''KEYSIGHT'', ''AGILENT'',
            ''HEWLETT'', ''RIGOL'', ''SIGLENT'', ''ROHDE'', ''ROHDE&SCHWARZ'', ''R&S''}.
        \<not> sublist (py v) (upper (py ''ACME,Model1,SN1,FW1''))"
    by simp
  with detect_vendor_tags [of "py ''ACME,Model1,SN1,FW1''"] h show ?thesis
    by blast
qed

text \<open>
  Claim C9 as stated fails: a Rohde and Schwarz identity string gets the tag RNS, which
  is none of LECROY, TEKTRONIX, KEYSIGHT, RIGOL_SIGLENT, UNKNOWN.
\<close>

theorem detect_vendor_rns_counterexample:
  "detect_vendor (py ''Rohde&Schwarz,RTO1004,1,1'') = py ''RNS''
   \<and> detect_vendor (py ''Rohde&Schwarz,RTO1004,1,1'')
       \<notin> {py ''LECROY'', py ''TEKTRONIX'', py ''KEYSIGHT'', py ''RIGOL_SIGLENT'',
           py ''UNKNOWN''}"
proof -
  have "detect_vendor (py ''Rohde&Schwarz,RTO1004,1,1'') = py ''RNS''"
    by (simp add: detect_vendor_def py_def upper_def upper_cp_def sublist_Cons_right)
  then show ?thesis by (simp add: py_def)
qed

section \<open>Example instruments\<close>

text \<open>
  Two instruments for the examples: one answers a binary query with 100 bytes and a raw
  read with 200 bytes; one fails every call.
\<close>

definition kdev :: "call list \<Rightarrow> call \<Rightarrow> reply" where
  "kdev h c = (case c of QueryBinary _ \<Rightarrow> Raw (replicate 100 0x41)
                       | ReadRaw \<Rightarrow> Raw (replicate 200 0x42) | _ \<Rightarrow> Ack)"

definition dead_dev :: "call list \<Rightarrow> call \<Rightarrow> reply" where
  "dead_dev h c = Err"

section \<open>Receiving does not depend on what was sent\<close>

definition retx :: "bytes list \<Rightarrow> nat \<Rightarrow> sock \<Rightarrow> sock" where
  "retx a b s = s\<lparr>tx := a, tx_left := b\<rparr>"

lemma retx_simps [simp]: "rx (retx a b s) = rx s" "tx (retx a b s) = a" "tx_left (retx a b s) = b"
  "size_rx (retx a b s) = size_rx s"
  by (simp_all add: retx_def size_rx_def)

lemma retx_rx: "retx a b (s\<lparr>rx := r\<rparr>) = (retx a b s)\<lparr>rx := r\<rparr>"
  by (simp add: retx_def)

lemma sock_recv_retx:
  "sock_recv n (retx a b s) = (fst (sock_recv n s), retx a b (snd (sock_recv n s)))"
  by (simp add: sock_recv_def retx_rx split: list.splits event.splits)

lemma recv_exact_loop_retx:
  "recv_exact_loop n buf (retx a b s)
     = (fst (recv_exact_loop n buf s), retx a b (snd (recv_exact_loop n buf s)))"
proof (induction n buf s rule: recv_exact_loop.induct)
  case (1 n buf s)
  show ?case
  proof (cases "length buf < n")
    case False
    then show ?thesis
      by (simp add: recv_exact_loop.simps [of n buf s] recv_exact_loop.simps [of n buf "retx a b s"])
  next
    case True
    obtain q t where st: "sock_recv (n - length buf) s = (q, t)"
      by (cases "sock_recv (n - length buf) s")
    then have st': "sock_recv (n - length buf) (retx a b s) = (q, retx a b t)"
      by (simp add: sock_recv_retx)
    show ?thesis
    proof (cases q)
      case (Inl e)
      with True st st' show ?thesis
        by (simp add: recv_exact_loop.simps [of n buf s]
            recv_exact_loop.simps [of n buf "retx a b s"])
    next
      case (Inr chunk)
      show ?thesis
      proof (cases "chunk = []")
        case True
        with \<open>length buf < n\<close> Inr st st' show ?thesis
          by (simp add: recv_exact_loop.simps [of n buf s]
              recv_exact_loop.simps [of n buf "retx a b s"])
      next
        case False
        from "1.IH" [OF \<open>length buf < n\<close> st [symmetric] Inr False]
        show ?thesis using \<open>length buf < n\<close> Inr st st' False
          by (simp add: recv_exact_loop.simps [of n buf s]
              recv_exact_loop.simps [of n buf "retx a b s"])
      qed
    qed
  qed
qed

lemma recv_exact_retx:
  "recv_exact n (retx a b s) = (fst (recv_exact n s), retx a b (snd (recv_exact n s)))"
  by (simp add: recv_exact_def recv_exact_loop_retx)

lemma vicp_recv_loop_retx:
  "vicp_recv_loop img (retx a b s)
     = (fst (vicp_recv_loop img s), retx a b (snd (vicp_recv_loop img s)))"
proof (induction "size_rx s" arbitrary: img s rule: less_induct)
  case less
  show ?case
    by (subst vicp_recv_loop.simps [of img s], subst vicp_recv_loop.simps [of img s],
        subst vicp_recv_loop.simps [of img "retx a b s"])
       (auto simp: Let_def less recv_exact_retx split: prod.splits sum.splits
          dest!: recv_exact_facts)
qed

lemma vicp_recv_retx:
  "vicp_recv (s\<lparr>tx := a, tx_left := b\<rparr>)
     = (fst (vicp_recv s), (snd (vicp_recv s))\<lparr>tx := a, tx_left := b\<rparr>)"
  using vicp_recv_loop_retx [of "[]" a b s] by (simp add: vicp_recv_def retx_def)


section \<open>Claim C10: the native VICP path\<close>

text \<open>The frame \<open>_vicp_send\<close> produces for an ASCII command at counter \<open>q\<close>.\<close>

definition frame_of :: "int \<Rightarrow> str \<Rightarrow> bytes" where
  "frame_of q cmd =
     [0x80 OR 0x40 OR 0x01, 0x01, word_of_int (q mod 255 + 1), 0x00]
     @ be32 (length cmd) @ map of_nat cmd"

definition ascii_cmd :: "str \<Rightarrow> bool" where
  "ascii_cmd cmd = (list_all (\<lambda>c. c < 128) cmd \<and> length cmd < 2 ^ 32)"

lemma vicp_send_ascii:
  assumes "ascii_cmd cmd"
  shows "vicp_send s q cmd
           = (if 0 < tx_left s
              then (Inr (), s\<lparr>tx := tx s @ [frame_of q cmd], tx_left := tx_left s - 1\<rparr>,
                    q mod 255 + 1)
              else (Inl OSError, s, q mod 255 + 1))"
  using assms vicp_frame_ascii [of cmd q]
  by (simp add: ascii_cmd_def vicp_send_def sendall_def frame_of_def)

lemma ascii_cmd_idn: "ascii_cmd (py ''*IDN?'')"
  by (simp add: ascii_cmd_def py_def)

lemma ascii_cmd_screen_dump: "ascii_cmd (py ''SCREEN_DUMP'')"
  by (simp add: ascii_cmd_def py_def)

lemma norm_color_cases: "norm_color dcol = py ''WHITE'' \<or> norm_color dcol = py ''BLACK''"
  by (auto simp: norm_color_def)

lemma ascii_cmd_hcsu: "ascii_cmd (hcsu (norm_color dcol))"
  using norm_color_cases [of dcol] by (auto simp: ascii_cmd_def hcsu_def py_def)

lemma vicp_recv_one:
  assumes "wf_frame f" "has_eoi f" "avail (rx s) = wire f @ rest"
  shows "fst (vicp_recv s) = data_of f \<and> avail (rx (snd (vicp_recv s))) = rest"
  using vicp_recv_loop_frame [OF assms(1,3), of "[]"] assms(2)
  by (auto simp: vicp_recv_def)

definition rigol_sock :: sock where
  "rigol_sock = \<lparr>rx = [Recv ([0x81, 1, 1, 0, 0, 0, 0, 12] @ ascii ''RIGOL,DS1054'')], tx = [],
                 tx_left = 3\<rparr>"

definition rigol_env :: env where
  "rigol_env = \<lparr>net = (\<lambda>h p. if h = py ''10.0.0.5'' \<and> p = 1861 then Some rigol_sock else None),
                visa = (\<lambda>r. None), disk_ok = True, display_color = py ''WHITE''\<rparr>"


text \<open>
  Claim C10. When the connection to port 1861 is made and the reply to \<open>*IDN?\<close> does not
  give the tag LECROY, \<open>vicp_capture\<close> returns False, saves nothing, and the socket has
  carried the \<open>*IDN?\<close> frame only (nothing at all when that send failed): no HCSU and no
  SCREEN_DUMP frame.
\<close>

theorem vicp_capture_not_lecroy:
  assumes "net E ip 1861 = Some s0"
    and "detect_vendor (py_strip (decode_ascii_replace (fst (vicp_recv s0)))) \<noteq> py ''LECROY''"
  shows "v_result (vicp_capture E q ip) = Inr False
         \<and> v_saved (vicp_capture E q ip) = None
         \<and> map_option tx (v_sock (vicp_capture E q ip))
             = Some (tx s0 @ (if 0 < tx_left s0 then [frame_of q (py ''*IDN?'')] else []))"
proof (cases "0 < tx_left s0")
  case False
  with assms(1) show ?thesis
    by (simp add: vicp_capture_def vicp_send_ascii [OF ascii_cmd_idn])
next
  case True
  define s1 where "s1 = s0\<lparr>tx := tx s0 @ [frame_of q (py ''*IDN?'')], tx_left := tx_left s0 - 1\<rparr>"
  have snd1: "vicp_send s0 q (py ''*IDN?'') = (Inr (), s1, q mod 255 + 1)"
    using True by (simp add: vicp_send_ascii [OF ascii_cmd_idn] s1_def)
  have rcv: "vicp_recv s1 = (fst (vicp_recv s0), (snd (vicp_recv s0))\<lparr>tx := tx s1, tx_left := tx_left s1\<rparr>)"
    unfolding s1_def by (simp add: vicp_recv_retx)
  from assms snd1 rcv True show ?thesis
    by (simp add: vicp_capture_def Let_def s1_def)
qed

theorem vicp_capture_not_lecroy_witness:
  "v_result (vicp_capture rigol_env 0 (py ''10.0.0.5'')) = Inr False
   \<and> v_saved (vicp_capture rigol_env 0 (py ''10.0.0.5'')) = None
   \<and> map_option tx (v_sock (vicp_capture rigol_env 0 (py ''10.0.0.5'')))
       = Some [[0xC1, 1, 1, 0, 0, 0, 0, 5, 0x2A, 0x49, 0x44, 0x4E, 0x3F]]"
proof -
  define f where "f = \<lparr>f_op = 0x81, f_ver = 1, f_seq = 1, f_pad = 0,
                        f_payload = ascii ''RIGOL,DS1054''\<rparr>"
  have "wf_frame f" "has_eoi f" "avail (rx rigol_sock) = wire f @ []"
    by (simp_all add: f_def wf_frame_def has_eoi_def rigol_sock_def wire_def be32_def ascii_def)
  from vicp_recv_one [OF this]
  have r: "fst (vicp_recv rigol_sock) = ascii ''RIGOL,DS1054''"
    by (simp add: data_of_def is_data_def f_def)
  have n: "net rigol_env (py ''10.0.0.5'') 1861 = Some rigol_sock"
    by (simp add: rigol_env_def)
  have v: "detect_vendor (py_strip (decode_ascii_replace (fst (vicp_recv rigol_sock))))
             \<noteq> py ''LECROY''"
    unfolding r
    by (simp add: ascii_def decode_ascii_replace_def py_strip_def py_isspace_def detect_vendor_def
        upper_def upper_cp_def py_def sublist_Cons_right)
  from vicp_capture_not_lecroy [OF n v, of 0] show ?thesis
    by (simp add: frame_of_def rigol_sock_def be32_def py_def)
qed

section \<open>Claim C5: the dispatcher for an unknown vendor\<close>

text \<open>The result of a method when it is longer than 100 bytes.\<close>

definition accepted :: "exn + bytes \<Rightarrow> bytes option" where
  "accepted r = (case r of Inr d \<Rightarrow> if 100 < length d then Some d else None | Inl e \<Rightarrow> None)"

lemma try_methods_step:
  "try_methods (fn # fns) sc c =
     (if accepted (fst (fn sc c)) \<noteq> None then (accepted (fst (fn sc c)), snd (fn sc c))
      else try_methods fns (snd (fn sc c)) c)"
  by (cases "fn sc c") (auto simp: accepted_def split: sum.splits)

lemma detect_vendor_empty: "detect_vendor [] = py ''UNKNOWN''"
  by (simp add: detect_vendor_def upper_def py_def)

lemma detect_vendor_no_idn: "detect_vendor (py ''(no IDN response)'') = py ''UNKNOWN''"
  by (simp add: detect_vendor_def py_def upper_def upper_cp_def sublist_Cons_right)

lemma calls_scope_write: "calls (snd (scope_write sc cmd)) = calls sc @ [Write cmd]"
  by (simp add: scope_write_def scope_do_def split: reply.splits)

lemma bnd_write_calls:
  "\<exists>rst. calls (snd (bnd (scope_write sc cmd) f)) = calls sc @ Write cmd # rst"
    if "\<And>a s. \<exists>rst. calls (snd (f a s)) = calls s @ rst"
proof (cases "scope_write sc cmd")
  case (Pair r s1)
  with calls_scope_write [of sc cmd] have c1: "calls s1 = calls sc @ [Write cmd]" by simp
  show ?thesis
  proof (cases r)
    case (Inl e)
    with Pair c1 show ?thesis by (simp add: bnd_def)
  next
    case (Inr a)
    from that [of a s1] obtain rst where "calls (snd (f a s1)) = calls s1 @ rst" by blast
    with Pair Inr c1 show ?thesis by (simp add: bnd_def)
  qed
qed

lemma calls_grow_read: "\<exists>rst. calls (snd (scope_read_raw s)) = calls s @ rst"
  by (simp add: scope_read_raw_def scope_do_def split: reply.splits)

lemma calls_grow_qbv: "\<exists>rst. calls (snd (scope_query_binary_values s c)) = calls s @ rst"
  by (simp add: scope_query_binary_values_def scope_do_def split: reply.splits)

lemma calls_grow_write: "\<exists>rst. calls (snd (scope_write s c)) = calls s @ rst"
  by (simp add: calls_scope_write)

lemma calls_grow_set: "calls (scope_set s c) = calls s @ [c]"
  by (simp add: scope_set_def)

lemma calls_grow_bnd:
  assumes "\<exists>rst. calls (snd m) = calls s0 @ rst"
    and "\<And>a s. \<exists>rst. calls (snd (f a s)) = calls s @ rst"
  shows "\<exists>rst. calls (snd (bnd m f)) = calls s0 @ rst"
proof (cases m)
  case (Pair r s1)
  with assms(1) obtain r1 where c1: "calls s1 = calls s0 @ r1" by auto
  show ?thesis
  proof (cases r)
    case (Inl e)
    with Pair c1 show ?thesis by (simp add: bnd_def)
  next
    case (Inr a)
    from assms(2) [of a s1] obtain rst where "calls (snd (f a s1)) = calls s1 @ rst" by blast
    with Pair Inr c1 show ?thesis by (simp add: bnd_def)
  qed
qed

lemma calls_grow_read_set:
  "\<exists>rst. calls (snd (scope_read_raw (scope_set s c))) = calls s @ rst"
  using calls_grow_read [of "scope_set s c"] by (auto simp: calls_grow_set)

lemma calls_grow_qbv_set:
  "\<exists>rst. calls (snd (scope_query_binary_values (scope_set s c) q)) = calls s @ rst"
  using calls_grow_qbv [of "scope_set s c" q] by (auto simp: calls_grow_set)

lemma first_call_keysight:
  "\<exists>rst. calls (snd (dump_keysight sc c))
      = calls sc @ Write (py '':DISP:DATA PNG,'' @ (if c = py ''WHITE'' then py ''INKS'' else py ''SCR'')
                          @ py '',COL'') # rst"
  unfolding dump_keysight_def Let_def
  by (intro bnd_write_calls calls_grow_bnd calls_grow_qbv_set) simp

lemma first_call_rigol:
  "\<exists>rst. calls (snd (dump_rigol sc c))
      = calls sc @ Write (py '':DISP:DATA? ON,'' @ (if c = py ''WHITE'' then py ''OFF'' else py ''ON'')
                          @ py '',PNG'') # rst"
  unfolding dump_rigol_def Let_def
proof (intro bnd_write_calls calls_grow_bnd calls_grow_read_set, goal_cases)
  case (1 a s a' s')
  show ?case
    using calls_grow_bnd [OF calls_grow_write, of "\<lambda>_ sc. scope_read_raw sc" s' "py '':DISP:DATA?''"]
      calls_grow_read
    by auto
qed

lemma first_call_lecroy:
  "\<exists>rst. calls (snd (dump_lecroy sc c)) = calls sc @ Write (hcsu c) # rst"
  unfolding dump_lecroy_def
  by (intro bnd_write_calls calls_grow_bnd calls_grow_write calls_grow_read_set)

lemma first_call_tektronix:
  "\<exists>rst. calls (snd (dump_tektronix sc c)) = calls sc @ Write (py ''HARDcopy:PORT GPIB'') # rst"
  unfolding dump_tektronix_def Let_def
  by (intro bnd_write_calls calls_grow_bnd calls_grow_write calls_grow_read_set)

lemma nth_first_call: "xs = ys @ z # rst \<Longrightarrow> xs ! length ys = z"
  by simp


lemma screen_dump_unknown_chain:
  "screen_dump dcol sc (py ''UNKNOWN'') =
     (let c = norm_color dcol;
          K = dump_keysight sc c;
          R = dump_rigol (snd K) c;
          L = dump_lecroy (snd R) c;
          T = dump_tektronix (snd L) c
      in if accepted (fst K) \<noteq> None then (Inr (accepted (fst K)), snd K)
         else if accepted (fst R) \<noteq> None then (Inr (accepted (fst R)), snd R)
         else if accepted (fst L) \<noteq> None then (Inr (accepted (fst L)), snd L)
         else if accepted (fst T) \<noteq> None then (Inr (accepted (fst T)), snd T)
         else (Inr None, snd T))"
proof -
  have v: "py ''UNKNOWN'' \<noteq> py ''LECROY''" "py ''UNKNOWN'' \<noteq> py ''TEKTRONIX''"
    "py ''UNKNOWN'' \<notin> {py ''KEYSIGHT'', py ''AGILENT''}"
    "py ''UNKNOWN'' \<notin> {py ''RIGOL'', py ''SIGLENT''}"
    by simp_all
  show ?thesis
    unfolding screen_dump_def Let_def try_methods_step try_methods.simps(1)
    by (simp only: v if_False split: if_splits prod.splits) simp
qed

text \<open>
  Claim C5, as the code has it. An identity query that fails or returns the empty string
  gives the tag UNKNOWN. For UNKNOWN the dispatcher runs the KEYSIGHT, RIGOL, LECROY and
  TEKTRONIX command sets in that order, each on the session as the one before left it, and
  returns the first result longer than 100 bytes; it returns no data when every method
  raised or gave at most 100 bytes.
\<close>

theorem screen_dump_unknown_order:
  "detect_vendor [] = py ''UNKNOWN''
   \<and> detect_vendor (py ''(no IDN response)'') = py ''UNKNOWN''
   \<and> (isl (fst (scope_query sc0 (py ''*IDN?'')))
        \<longrightarrow> detect_vendor (fst (identify sc0)) = py ''UNKNOWN'')
   \<and> (fst (scope_query sc0 (py ''*IDN?'')) = Inr []
        \<longrightarrow> detect_vendor (fst (identify sc0)) = py ''UNKNOWN'')
   \<and> (let c = norm_color dcol;
           K = dump_keysight sc c;
           R = dump_rigol (snd K) c;
           L = dump_lecroy (snd R) c;
           T = dump_tektronix (snd L) c
       in screen_dump dcol sc (py ''UNKNOWN'') =
            (if accepted (fst K) \<noteq> None then (Inr (accepted (fst K)), snd K)
             else if accepted (fst R) \<noteq> None then (Inr (accepted (fst R)), snd R)
             else if accepted (fst L) \<noteq> None then (Inr (accepted (fst L)), snd L)
             else if accepted (fst T) \<noteq> None then (Inr (accepted (fst T)), snd T)
             else (Inr None, snd T))
          \<and> calls (snd K) ! length (calls sc)
              = Write (py '':DISP:DATA PNG,'' @ (if c = py ''WHITE'' then py ''INKS'' else py ''SCR'')
                       @ py '',COL'')
          \<and> calls (snd R) ! length (calls (snd K))
              = Write (py '':DISP:DATA? ON,'' @ (if c = py ''WHITE'' then py ''OFF'' else py ''ON'')
                       @ py '',PNG'')
          \<and> calls (snd L) ! length (calls (snd R)) = Write (hcsu c)
          \<and> calls (snd T) ! length (calls (snd L)) = Write (py ''HARDcopy:PORT GPIB''))"
proof -
  have a: "isl (fst (scope_query sc0 (py ''*IDN?'')))
        \<longrightarrow> detect_vendor (fst (identify sc0)) = py ''UNKNOWN''"
    by (cases "scope_query sc0 (py ''*IDN?'')")
       (auto simp: identify_def detect_vendor_no_idn split: sum.splits)
  have b: "fst (scope_query sc0 (py ''*IDN?'')) = Inr []
        \<longrightarrow> detect_vendor (fst (identify sc0)) = py ''UNKNOWN''"
    by (cases "scope_query sc0 (py ''*IDN?'')")
       (auto simp: identify_def detect_vendor_empty py_strip_def split: sum.splits)
  define c where "c = norm_color dcol"
  define K where "K = dump_keysight sc c"
  define R where "R = dump_rigol (snd K) c"
  define L where "L = dump_lecroy (snd R) c"
  define T where "T = dump_tektronix (snd L) c"
  have d: "screen_dump dcol sc (py ''UNKNOWN'') =
            (if accepted (fst K) \<noteq> None then (Inr (accepted (fst K)), snd K)
             else if accepted (fst R) \<noteq> None then (Inr (accepted (fst R)), snd R)
             else if accepted (fst L) \<noteq> None then (Inr (accepted (fst L)), snd L)
             else if accepted (fst T) \<noteq> None then (Inr (accepted (fst T)), snd T)
             else (Inr None, snd T))"
    unfolding screen_dump_unknown_chain Let_def c_def K_def R_def L_def T_def ..
  have k: "calls (snd K) ! length (calls sc)
              = Write (py '':DISP:DATA PNG,'' @ (if c = py ''WHITE'' then py ''INKS'' else py ''SCR'')
                       @ py '',COL'')"
    using first_call_keysight [of sc c] unfolding K_def by (auto dest: nth_first_call)
  have r: "calls (snd R) ! length (calls (snd K))
              = Write (py '':DISP:DATA? ON,'' @ (if c = py ''WHITE'' then py ''OFF'' else py ''ON'')
                       @ py '',PNG'')"
    using first_call_rigol [of "snd K" c] unfolding R_def by (auto dest: nth_first_call)
  have l: "calls (snd L) ! length (calls (snd R)) = Write (hcsu c)"
    using first_call_lecroy [of "snd R" c] unfolding L_def by (auto dest: nth_first_call)
  have t: "calls (snd T) ! length (calls (snd L)) = Write (py ''HARDcopy:PORT GPIB'')"
    using first_call_tektronix [of "snd L" c] unfolding T_def by (auto dest: nth_first_call)
  from d k r l t have e: "let c = norm_color dcol;
           K = dump_keysight sc c;
           R = dump_rigol (snd K) c;
           L = dump_lecroy (snd R) c;
           T = dump_tektronix (snd L) c
       in screen_dump dcol sc (py ''UNKNOWN'') =
            (if accepted (fst K) \<noteq> None then (Inr (accepted (fst K)), snd K)
             else if accepted (fst R) \<noteq> None then (Inr (accepted (fst R)), snd R)
             else if accepted (fst L) \<noteq> None then (Inr (accepted (fst L)), snd L)
             else if accepted (fst T) \<noteq> None then (Inr (accepted (fst T)), snd T)
             else (Inr None, snd T))
          \<and> calls (snd K) ! length (calls sc)
              = Write (py '':DISP:DATA PNG,'' @ (if c = py ''WHITE'' then py ''INKS'' else py ''SCR'')
                       @ py '',COL'')
          \<and> calls (snd R) ! length (calls (snd K))
              = Write (py '':DISP:DATA? ON,'' @ (if c = py ''WHITE'' then py ''OFF'' else py ''ON'')
                       @ py '',PNG'')
          \<and> calls (snd L) ! length (calls (snd R)) = Write (hcsu c)
          \<and> calls (snd T) ! length (calls (snd L)) = Write (py ''HARDcopy:PORT GPIB'')"
    unfolding Let_def c_def K_def R_def L_def T_def by (intro conjI)
  from detect_vendor_empty detect_vendor_no_idn a b e show ?thesis by (intro conjI)
qed


theorem screen_dump_unknown_order_witness:
  "detect_vendor (fst (identify \<lparr>dev = dead_dev, calls = []\<rparr>)) = py ''UNKNOWN''
   \<and> fst (screen_dump (py ''GREEN'') \<lparr>dev = kdev, calls = []\<rparr> (py ''UNKNOWN''))
       = Inr (Some (replicate 200 0x42))"
proof -
  have h: "isl (fst (scope_query \<lparr>dev = dead_dev, calls = []\<rparr> (py ''*IDN?'')))"
    by (simp add: scope_query_def scope_do_def dead_dev_def)
  have k: "fst (dump_keysight \<lparr>dev = kdev, calls = []\<rparr> (py ''WHITE'')) = Inr (replicate 100 0x41)"
    by (simp add: dump_keysight_def bnd_def scope_write_def scope_query_binary_values_def
        scope_do_def scope_set_def kdev_def Let_def)
  have r: "fst (dump_rigol (snd (dump_keysight \<lparr>dev = kdev, calls = []\<rparr> (py ''WHITE''))) (py ''WHITE''))
             = Inr (replicate 200 0x42)"
    by (simp add: dump_keysight_def dump_rigol_def bnd_def scope_write_def
        scope_query_binary_values_def scope_read_raw_def scope_do_def scope_set_def kdev_def Let_def)
  have c: "norm_color (py ''GREEN'') = py ''WHITE''"
    by (simp add: norm_color_def upper_def upper_cp_def py_def)
  from screen_dump_unknown_order [of "\<lparr>dev = dead_dev, calls = []\<rparr>" "py ''GREEN''"
      "\<lparr>dev = kdev, calls = []\<rparr>"] h
  have "detect_vendor (fst (identify \<lparr>dev = dead_dev, calls = []\<rparr>)) = py ''UNKNOWN''"
    and "let c = norm_color (py ''GREEN'');
           K = dump_keysight \<lparr>dev = kdev, calls = []\<rparr> c;
           R = dump_rigol (snd K) c;
           L = dump_lecroy (snd R) c;
           T = dump_tektronix (snd L) c
       in screen_dump (py ''GREEN'') \<lparr>dev = kdev, calls = []\<rparr> (py ''UNKNOWN'') =
            (if accepted (fst K) \<noteq> None then (Inr (accepted (fst K)), snd K)
             else if accepted (fst R) \<noteq> None then (Inr (accepted (fst R)), snd R)
             else if accepted (fst L) \<noteq> None then (Inr (accepted (fst L)), snd L)
             else if accepted (fst T) \<noteq> None then (Inr (accepted (fst T)), snd T)
             else (Inr None, snd T))"
    by (simp_all add: Let_def)
  then show ?thesis
    unfolding Let_def c by (simp add: k r accepted_def)
qed

text \<open>
  Claim C5 as stated fails at the threshold: an instrument whose KEYSIGHT query returns
  exactly 100 bytes and whose raw read returns 200 bytes. The first result of at least 100
  bytes is the KEYSIGHT one, and the dispatcher returns the RIGOL one.
\<close>

theorem screen_dump_unknown_threshold_counterexample:
  "fst (dump_keysight \<lparr>dev = kdev, calls = []\<rparr> (py ''WHITE'')) = Inr (replicate 100 0x41)
   \<and> fst (screen_dump (py ''WHITE'') \<lparr>dev = kdev, calls = []\<rparr> (py ''UNKNOWN''))
       = Inr (Some (replicate 200 0x42))"
proof -
  have k: "fst (dump_keysight \<lparr>dev = kdev, calls = []\<rparr> (py ''WHITE'')) = Inr (replicate 100 0x41)"
    by (simp add: dump_keysight_def bnd_def scope_write_def scope_query_binary_values_def
        scope_do_def scope_set_def kdev_def Let_def)
  have r: "fst (dump_rigol (snd (dump_keysight \<lparr>dev = kdev, calls = []\<rparr> (py ''WHITE''))) (py ''WHITE''))
             = Inr (replicate 200 0x42)"
    by (simp add: dump_keysight_def dump_rigol_def bnd_def scope_write_def
        scope_query_binary_values_def scope_read_raw_def scope_do_def scope_set_def kdev_def Let_def)
  have c: "norm_color (py ''WHITE'') = py ''WHITE''"
    by (simp add: norm_color_def upper_def upper_cp_def py_def)
  have "fst (screen_dump (py ''WHITE'') \<lparr>dev = kdev, calls = []\<rparr> (py ''UNKNOWN''))
          = Inr (Some (replicate 200 0x42))"
    unfolding screen_dump_unknown_chain Let_def c by (simp add: k r accepted_def)
  with k show ?thesis by simp
qed

section \<open>Example worlds\<close>

text \<open>
  A LeCroy scope whose VXI-11 session hands out 40 bytes, a Keysight scope whose block query
  returns exactly 100 bytes, and sockets that deliver one image frame, or an identity
  frame and an image frame.
\<close>

definition lecroy_dev :: "call list \<Rightarrow> call \<Rightarrow> reply" where
  "lecroy_dev h c = (case c of Query _ \<Rightarrow> Text (py ''LECROY,WR640'')
                            | ReadRaw \<Rightarrow> Raw (replicate 40 0x42) | _ \<Rightarrow> Ack)"

definition ks_dev :: "call list \<Rightarrow> call \<Rightarrow> reply" where
  "ks_dev h c = (case c of Query _ \<Rightarrow> Text (py ''KEYSIGHT,DSOX1204G'')
                        | QueryBinary _ \<Rightarrow> Raw (replicate 100 0x41) | _ \<Rightarrow> Ack)"

definition image_sock :: sock where
  "image_sock = \<lparr>rx = [Recv ([0x81, 1, 1, 0, 0, 0, 0, 120] @ replicate 120 0x42)], tx = [],
                 tx_left = 2\<rparr>"

definition two_reply_sock :: sock where
  "two_reply_sock = \<lparr>rx = [Recv ([0x81, 1, 1, 0, 0, 0, 0, 12] @ ascii ''LECROY,WR640''),
                           Recv ([0x81, 1, 2, 0, 0, 0, 0, 120] @ replicate 120 0x42)],
                     tx = [], tx_left = 3\<rparr>"

definition lecroy_env :: env where
  "lecroy_env = \<lparr>net = (\<lambda>h p. if h = py ''10.0.0.5'' \<and> p = 1861 then Some image_sock else None),
                 visa = (\<lambda>r. if r = py ''TCPIP::10.0.0.5::inst0::INSTR'' then Some lecroy_dev
                             else None),
                 disk_ok = True, display_color = py ''WHITE''\<rparr>"

definition lecroy_env_refused :: env where
  "lecroy_env_refused = \<lparr>net = (\<lambda>h p. None),
                 visa = (\<lambda>r. if r = py ''TCPIP::10.0.0.5::inst0::INSTR'' then Some lecroy_dev
                             else None),
                 disk_ok = True, display_color = py ''WHITE''\<rparr>"

definition ks_env :: env where
  "ks_env = \<lparr>net = (\<lambda>h p. if h = py ''10.0.0.5'' \<and> p = 1861 then Some two_reply_sock else None),
             visa = (\<lambda>r. if r = py ''USB0::0x2A8D::0x0396::CN1::INSTR'' then Some ks_dev else None),
             disk_ok = True, display_color = py ''WHITE''\<rparr>"

lemma resource_form:
  "py ''TCPIP::'' @ py ''10.0.0.5'' @ py ''::'' @ py ''inst0::INSTR''
     = py ''TCPIP::10.0.0.5::inst0::INSTR''"
  by (simp add: py_def)

lemma open_first_head:
  "visa E res = Some d \<Longrightarrow> open_first E (candidates_of res) = Some \<lparr>dev = d, calls = []\<rparr>"
  by (simp add: candidates_of_def)

lemma lecroy_session_identify:
  "identify (scope_init \<lparr>dev = lecroy_dev, calls = []\<rparr> 15000)
     = (py ''LECROY,WR640'',
        \<lparr>dev = lecroy_dev,
         calls = [SetTimeout 15000, SetReadTerm (Some [10]), SetWriteTerm (Some [10]),
                  Query (py ''*IDN?'')]\<rparr>)"
  by (simp add: identify_def scope_init_def scope_set_def scope_query_def scope_do_def
      lecroy_dev_def py_strip_def py_isspace_def py_def)

lemma lecroy_vendor: "detect_vendor (py ''LECROY,WR640'') = py ''LECROY''"
  by (simp add: detect_vendor_def py_def upper_def upper_cp_def sublist_Cons_right)

lemma white: "norm_color (py ''WHITE'') = py ''WHITE''"
  by (simp add: norm_color_def upper_def upper_cp_def py_def)

lemma lecroy_session_dump:
  "screen_dump (py ''WHITE'')
     \<lparr>dev = lecroy_dev,
      calls = [SetTimeout 15000, SetReadTerm (Some [10]), SetWriteTerm (Some [10]),
               Query (py ''*IDN?'')]\<rparr> (py ''LECROY'')
   = (Inr (Some (replicate 40 0x42)),
      \<lparr>dev = lecroy_dev,
       calls = [SetTimeout 15000, SetReadTerm (Some [10]), SetWriteTerm (Some [10]),
                Query (py ''*IDN?''), Write (hcsu (py ''WHITE'')), Write (py ''SCREEN_DUMP''),
                SetReadTerm None, ReadRaw]\<rparr>)"
  by (simp add: screen_dump_def white dump_lecroy_def bnd_def scope_write_def scope_read_raw_def
      scope_do_def scope_set_def lecroy_dev_def)

lemma image_sock_recv: "fst (vicp_recv image_sock) = replicate 120 0x42"
proof -
  define f where "f = \<lparr>f_op = 0x81, f_ver = 1, f_seq = 1, f_pad = 0,
                        f_payload = replicate 120 (0x42 :: byte)\<rparr>"
  have "wf_frame f" "has_eoi f" "avail (rx image_sock) = wire f @ []"
    by (simp_all add: f_def wf_frame_def has_eoi_def image_sock_def wire_def be32_def)
  from vicp_recv_one [OF this] show ?thesis
    by (simp add: data_of_def is_data_def f_def)
qed

lemma strip_replicate: "strip_ieee_block (replicate 120 0x42) = replicate 120 0x42"
  by (rule strip_ieee_block_no_marker) simp



section \<open>Claims C3 and C4: validation and downgrade\<close>

lemma py_split_loop_sep:
  "py_split_loop [58, 58] cur (58 # 58 # t) = cur # py_split_loop [58, 58] [] t"
  by (simp add: py_split_loop.simps [of "[58, 58]" cur "58 # 58 # t"])

lemma py_split_loop_char:
  "x \<noteq> 58 \<Longrightarrow> py_split_loop [58, 58] cur (x # t) = py_split_loop [58, 58] (cur @ [x]) t"
  by (simp add: py_split_loop.simps [of "[58, 58]" cur "x # t"])

lemma py_split_loop_host:
  "58 \<notin> set host \<Longrightarrow>
   py_split_loop [58, 58] cur (host @ 58 # 58 # t) = (cur @ host) # py_split_loop [58, 58] [] t"
proof (induction host arbitrary: cur)
  case Nil
  show ?case by (simp add: py_split_loop_sep)
next
  case (Cons x xs)
  then have "x \<noteq> 58" "58 \<notin> set xs" by auto
  with Cons.IH [of "cur @ [x]"] show ?case by (simp add: py_split_loop_char)
qed


lemma py_split_resource:
  assumes "58 \<notin> set host"
  shows "py_split (py ''TCPIP::'' @ host @ py ''::'' @ t) (py ''::'')
           = Inr (py ''TCPIP'' # host # py_split_loop [58, 58] [] t)"
  using assms
  by (simp add: py_split_def py_def py_split_loop_char py_split_loop_sep py_split_loop_host)

lemma upper_tcpip: "sublist (py ''TCPIP::'') (upper (py ''TCPIP::'' @ r))"
proof -
  have "upper (py ''TCPIP::'' @ r) = py ''TCPIP::'' @ upper r"
    by (simp add: upper_def upper_cp_def py_def)
  then show ?thesis by simp
qed

lemma dump_lecroy_vicp_raw_refused:
  "net E ip 1861 = None \<Longrightarrow> dump_lecroy_vicp_raw E q ip color = (Inl OSError, None, q)"
  by (simp add: dump_lecroy_vicp_raw_def)

lemma dump_lecroy_vicp_raw_connected:
  assumes "net E ip 1861 = Some s0" "2 \<le> tx_left s0"
  shows "dump_lecroy_vicp_raw E q ip (norm_color dcol)
           = (Inr (fst (vicp_recv s0)),
              Some ((snd (vicp_recv s0))
                      \<lparr>tx := tx s0 @ [frame_of q (hcsu (norm_color dcol)),
                                       frame_of (q mod 255 + 1) (py ''SCREEN_DUMP'')],
                       tx_left := tx_left s0 - 2\<rparr>),
              (q mod 255 + 1) mod 255 + 1)"
proof -
  define s1 where "s1 = s0\<lparr>tx := tx s0 @ [frame_of q (hcsu (norm_color dcol))],
                           tx_left := tx_left s0 - 1\<rparr>"
  define s2 where "s2 = s0\<lparr>tx := tx s0 @ [frame_of q (hcsu (norm_color dcol)),
                                          frame_of (q mod 255 + 1) (py ''SCREEN_DUMP'')],
                           tx_left := tx_left s0 - 2\<rparr>"
  have a: "vicp_send s0 q (hcsu (norm_color dcol)) = (Inr (), s1, q mod 255 + 1)"
    using assms(2) by (simp add: vicp_send_ascii [OF ascii_cmd_hcsu] s1_def)
  have b: "vicp_send s1 (q mod 255 + 1) (py ''SCREEN_DUMP'')
             = (Inr (), s2, (q mod 255 + 1) mod 255 + 1)"
    using assms(2) by (simp add: vicp_send_ascii [OF ascii_cmd_screen_dump] s1_def s2_def)
  have c: "vicp_recv s2 = (fst (vicp_recv s0), (snd (vicp_recv s0))\<lparr>tx := tx s2, tx_left := tx_left s2\<rparr>)"
    unfolding s2_def by (simp add: vicp_recv_retx)
  show ?thesis
    using assms(1) a b c by (simp add: dump_lecroy_vicp_raw_def s2_def)
qed

lemma scpi_capture_session:
  assumes "open_first E (candidates_of res) = Some sc0"
    "identify (scope_init sc0 tmo) = (idn, sc1)"
    "screen_dump (display_color E) sc1 (detect_vendor idn) = (Inr image_data, sc2)"
  shows "scpi_capture E q res tmo =
           (case image_data of
              None \<Rightarrow> scpi_fallback E q res (detect_vendor idn) sc2
            | Some data \<Rightarrow>
                if data = [] \<or> length data < 100
                then scpi_fallback E q res (detect_vendor idn) sc2
                else \<lparr>s_result = disk_ok E, s_scope = Some (scope_set sc2 Close), s_dialed = [],
                      s_sock = None, s_saved = Some (strip_ieee_block data), s_seq = q\<rparr>)"
  using assms by (simp add: scpi_capture_def Let_def save_image_def split: option.splits)

lemma scpi_fallback_no_downgrade:
  "s_dialed (scpi_fallback E q res vendor sc) = []
   \<Longrightarrow> \<not> s_result (scpi_fallback E q res vendor sc) \<and> s_saved (scpi_fallback E q res vendor sc) = None"
  by (auto simp: scpi_fallback_def Let_def split: sum.splits prod.splits if_splits)

lemma scpi_fallback_lecroy:
  assumes "58 \<notin> set host"
  shows "scpi_fallback E q (py ''TCPIP::'' @ host @ py ''::'' @ t) (py ''LECROY'') sc =
     (case dump_lecroy_vicp_raw E q host (norm_color (display_color E)) of
        (Inl e, so, q') \<Rightarrow>
          \<lparr>s_result = False, s_scope = Some (scope_set (scope_set sc Close) Close),
           s_dialed = [(host, 1861)], s_sock = so, s_saved = None, s_seq = q'\<rparr>
      | (Inr image_data, so, q') \<Rightarrow>
          if image_data = [] \<or> length image_data < 100
          then \<lparr>s_result = False, s_scope = Some (scope_set (scope_set sc Close) Close),
                s_dialed = [(host, 1861)], s_sock = so, s_saved = None, s_seq = q'\<rparr>
          else \<lparr>s_result = disk_ok E, s_scope = Some (scope_set (scope_set sc Close) Close),
                s_dialed = [(host, 1861)], s_sock = so,
                s_saved = Some (strip_ieee_block image_data), s_seq = q'\<rparr>)"
  by (simp add: scpi_fallback_def upper_tcpip py_split_resource [OF assms] py_index_def Let_def
      save_image_def split: sum.splits prod.splits)


lemma vicp_capture_lecroy:
  assumes n: "net E ip 1861 = Some s0" and t: "3 \<le> tx_left s0"
    and v: "detect_vendor (py_strip (decode_ascii_replace (fst (vicp_recv s0)))) = py ''LECROY''"
  shows "v_result (vicp_capture E q ip)
           = (if length (fst (vicp_recv (snd (vicp_recv s0)))) < 100 then Inr False
              else if disk_ok E then Inr True else Inl OSError)
         \<and> v_saved (vicp_capture E q ip)
           = (if length (fst (vicp_recv (snd (vicp_recv s0)))) < 100 then None
              else Some (strip_ieee_block (fst (vicp_recv (snd (vicp_recv s0))))))"
proof -
  define c where "c = norm_color (display_color E)"
  define q1 where "q1 = q mod 255 + 1"
  define q2 where "q2 = q1 mod 255 + 1"
  define r0 where "r0 = snd (vicp_recv s0)"
  define s1 where "s1 = s0\<lparr>tx := tx s0 @ [frame_of q (py ''*IDN?'')], tx_left := tx_left s0 - 1\<rparr>"
  define s2 where "s2 = r0\<lparr>tx := tx s1, tx_left := tx_left s1\<rparr>"
  define s3 where "s3 = s2\<lparr>tx := tx s2 @ [frame_of q1 (hcsu c)], tx_left := tx_left s2 - 1\<rparr>"
  define s4 where "s4 = s3\<lparr>tx := tx s3 @ [frame_of q2 (py ''SCREEN_DUMP'')],
                           tx_left := tx_left s3 - 1\<rparr>"
  have a1: "vicp_send s0 q (py ''*IDN?'') = (Inr (), s1, q1)"
    using t by (simp add: vicp_send_ascii [OF ascii_cmd_idn] s1_def q1_def)
  have a2: "vicp_recv s1 = (fst (vicp_recv s0), s2)"
    unfolding s1_def s2_def r0_def by (simp add: vicp_recv_retx)
  have l2: "tx_left s2 = tx_left s0 - 1" by (simp add: s2_def s1_def)
  have a3: "vicp_send s2 q1 (hcsu c) = (Inr (), s3, q2)"
    using t l2 unfolding c_def by (simp add: vicp_send_ascii [OF ascii_cmd_hcsu] s3_def q2_def c_def)
  have l3: "tx_left s3 = tx_left s0 - 2" using l2 by (simp add: s3_def)
  have a4: "vicp_send s3 q2 (py ''SCREEN_DUMP'') = (Inr (), s4, q2 mod 255 + 1)"
    using t l3 by (simp add: vicp_send_ascii [OF ascii_cmd_screen_dump] s4_def)
  have "s4 = r0\<lparr>tx := tx s4, tx_left := tx_left s4\<rparr>"
    by (simp add: s4_def s3_def s2_def)
  then have "vicp_recv s4 = vicp_recv (r0\<lparr>tx := tx s4, tx_left := tx_left s4\<rparr>)" by simp
  also have "\<dots> = (fst (vicp_recv r0), (snd (vicp_recv r0))\<lparr>tx := tx s4, tx_left := tx_left s4\<rparr>)"
    by (rule vicp_recv_retx)
  finally have a5: "vicp_recv s4
      = (fst (vicp_recv r0), (snd (vicp_recv r0))\<lparr>tx := tx s4, tx_left := tx_left s4\<rparr>)" .
  show ?thesis
    unfolding vicp_capture_def Let_def
    using n v a1 a2 a3 a4 a5
    by (simp add: c_def [symmetric] r0_def [symmetric] save_image_def)
qed

lemma scpi_downgrade:
  assumes h: "58 \<notin> set host"
    and o: "open_first E (candidates_of (py ''TCPIP::'' @ host @ py ''::'' @ t)) = Some sc0"
    and i: "identify (scope_init sc0 tmo) = (idn, sc1)"
    and v: "detect_vendor idn = py ''LECROY''"
    and d: "screen_dump (display_color E) sc1 (py ''LECROY'') = (Inr image_data, sc2)"
    and small: "image_data = None \<or> (\<exists>data. image_data = Some data \<and> length data < 100)"
  shows "scpi_capture E q (py ''TCPIP::'' @ host @ py ''::'' @ t) tmo =
     (case dump_lecroy_vicp_raw E q host (norm_color (display_color E)) of
        (Inl e, so, q') \<Rightarrow>
          \<lparr>s_result = False, s_scope = Some (scope_set (scope_set sc2 Close) Close),
           s_dialed = [(host, 1861)], s_sock = so, s_saved = None, s_seq = q'\<rparr>
      | (Inr img, so, q') \<Rightarrow>
          if img = [] \<or> length img < 100
          then \<lparr>s_result = False, s_scope = Some (scope_set (scope_set sc2 Close) Close),
                s_dialed = [(host, 1861)], s_sock = so, s_saved = None, s_seq = q'\<rparr>
          else \<lparr>s_result = disk_ok E, s_scope = Some (scope_set (scope_set sc2 Close) Close),
                s_dialed = [(host, 1861)], s_sock = so,
                s_saved = Some (strip_ieee_block img), s_seq = q'\<rparr>)"
proof -
  from d v have d': "screen_dump (display_color E) sc1 (detect_vendor idn) = (Inr image_data, sc2)"
    by simp
  from small have "scpi_capture E q (py ''TCPIP::'' @ host @ py ''::'' @ t) tmo
      = scpi_fallback E q (py ''TCPIP::'' @ host @ py ''::'' @ t) (py ''LECROY'') sc2"
    unfolding scpi_capture_session [OF o i d'] v by auto
  then show ?thesis by (simp only: scpi_fallback_lecroy [OF h])
qed

lemma ks_session_identify:
  "identify (scope_init \<lparr>dev = ks_dev, calls = []\<rparr> 15000)
     = (py ''KEYSIGHT,DSOX1204G'',
        \<lparr>dev = ks_dev,
         calls = [SetTimeout 15000, SetReadTerm (Some [10]), SetWriteTerm (Some [10]),
                  Query (py ''*IDN?'')]\<rparr>)"
  by (simp add: identify_def scope_init_def scope_set_def scope_query_def scope_do_def
      ks_dev_def py_strip_def py_isspace_def py_def)

lemma ks_vendor: "detect_vendor (py ''KEYSIGHT,DSOX1204G'') = py ''KEYSIGHT''"
  by (simp add: detect_vendor_def py_def upper_def upper_cp_def sublist_Cons_right)

lemma ks_session_dump:
  "screen_dump (py ''WHITE'')
     \<lparr>dev = ks_dev,
      calls = [SetTimeout 15000, SetReadTerm (Some [10]), SetWriteTerm (Some [10]),
               Query (py ''*IDN?'')]\<rparr> (py ''KEYSIGHT'')
   = (Inr (Some (replicate 100 0x41)),
      \<lparr>dev = ks_dev,
       calls = [SetTimeout 15000, SetReadTerm (Some [10]), SetWriteTerm (Some [10]),
                Query (py ''*IDN?''), Write (py '':DISP:DATA PNG,INKS,COL''), SetReadTerm None,
                QueryBinary (py '':DISP:DATA? PNG,INKS,COL'')]\<rparr>)"
  by (simp add: screen_dump_def white dump_keysight_def bnd_def scope_write_def
      scope_query_binary_values_def scope_do_def scope_set_def ks_dev_def py_append [symmetric])

lemma strip_replicate_100: "strip_ieee_block (replicate 100 0x41) = replicate 100 0x41"
  by (rule strip_ieee_block_no_marker) simp


lemma two_reply_recv:
  "fst (vicp_recv two_reply_sock) = ascii ''LECROY,WR640''"
  "fst (vicp_recv (snd (vicp_recv two_reply_sock))) = replicate 120 0x42"
proof -
  define f1 where "f1 = \<lparr>f_op = 0x81, f_ver = 1, f_seq = 1, f_pad = 0,
                          f_payload = ascii ''LECROY,WR640''\<rparr>"
  define f2 where "f2 = \<lparr>f_op = 0x81, f_ver = 1, f_seq = 2, f_pad = 0,
                          f_payload = replicate 120 (0x42 :: byte)\<rparr>"
  have "wf_frame f1" "has_eoi f1" "avail (rx two_reply_sock) = wire f1 @ wire f2"
    by (simp_all add: f1_def f2_def wf_frame_def has_eoi_def two_reply_sock_def wire_def be32_def
        ascii_def)
  from vicp_recv_one [OF this]
  have a: "fst (vicp_recv two_reply_sock) = data_of f1"
    and b: "avail (rx (snd (vicp_recv two_reply_sock))) = wire f2 @ []"
    by simp_all
  from a show "fst (vicp_recv two_reply_sock) = ascii ''LECROY,WR640''"
    by (simp add: data_of_def is_data_def f1_def)
  have "wf_frame f2" "has_eoi f2" by (simp_all add: f2_def wf_frame_def has_eoi_def)
  from vicp_recv_one [OF this b]
  show "fst (vicp_recv (snd (vicp_recv two_reply_sock))) = replicate 120 0x42"
    by (simp add: data_of_def is_data_def f2_def)
qed


text \<open>
  Claim C3, as the code has it. The session was opened on \<open>TCPIP::host::...\<close> (a host
  without a colon), the tag is LECROY and the screen dump returned fewer than 100 bytes or
  nothing. Then the session is closed (once before the raw attempt, once on leaving) and
  one raw connection is attempted, to the same host on port 1861. When it is refused the
  result is failure. When it is made and takes two sends, the HCSU and SCREEN_DUMP frames
  are sent, and the result is failure with nothing saved when fewer than 100 bytes come
  back, and otherwise the stripped image is handed to \<open>_save_image\<close> and the result is
  whether that succeeded.
\<close>

theorem scpi_capture_lecroy_downgrade:
  assumes "58 \<notin> set host"
    and "open_first E (candidates_of (py ''TCPIP::'' @ host @ py ''::'' @ t)) = Some sc0"
    and "identify (scope_init sc0 tmo) = (idn, sc1)"
    and "detect_vendor idn = py ''LECROY''"
    and "screen_dump (display_color E) sc1 (py ''LECROY'') = (Inr image_data, sc2)"
    and "image_data = None \<or> (\<exists>data. image_data = Some data \<and> length data < 100)"
  shows "s_dialed (scpi_capture E q (py ''TCPIP::'' @ host @ py ''::'' @ t) tmo) = [(host, 1861)]
     \<and> map_option calls (s_scope (scpi_capture E q (py ''TCPIP::'' @ host @ py ''::'' @ t) tmo))
         = Some (calls sc2 @ [Close, Close])
     \<and> (net E host 1861 = None \<longrightarrow>
           \<not> s_result (scpi_capture E q (py ''TCPIP::'' @ host @ py ''::'' @ t) tmo)
           \<and> s_saved (scpi_capture E q (py ''TCPIP::'' @ host @ py ''::'' @ t) tmo) = None)
     \<and> (\<forall>s0. net E host 1861 = Some s0 \<and> 2 \<le> tx_left s0 \<longrightarrow>
           map_option tx (s_sock (scpi_capture E q (py ''TCPIP::'' @ host @ py ''::'' @ t) tmo))
             = Some (tx s0 @ [frame_of q (hcsu (norm_color (display_color E))),
                              frame_of (q mod 255 + 1) (py ''SCREEN_DUMP'')])
           \<and> (length (fst (vicp_recv s0)) < 100 \<longrightarrow>
                 \<not> s_result (scpi_capture E q (py ''TCPIP::'' @ host @ py ''::'' @ t) tmo)
                 \<and> s_saved (scpi_capture E q (py ''TCPIP::'' @ host @ py ''::'' @ t) tmo) = None)
           \<and> (100 \<le> length (fst (vicp_recv s0)) \<longrightarrow>
                 s_result (scpi_capture E q (py ''TCPIP::'' @ host @ py ''::'' @ t) tmo) = disk_ok E
                 \<and> s_saved (scpi_capture E q (py ''TCPIP::'' @ host @ py ''::'' @ t) tmo)
                     = Some (strip_ieee_block (fst (vicp_recv s0)))))"
proof -
  note eq = scpi_downgrade [OF assms, of q]
  have 1: "s_dialed (scpi_capture E q (py ''TCPIP::'' @ host @ py ''::'' @ t) tmo) = [(host, 1861)]"
    unfolding eq by (simp split: prod.splits sum.splits)
  have 2: "map_option calls (s_scope (scpi_capture E q (py ''TCPIP::'' @ host @ py ''::'' @ t) tmo))
         = Some (calls sc2 @ [Close, Close])"
    unfolding eq by (simp add: scope_set_def split: prod.splits sum.splits)
  have 3: "net E host 1861 = None \<longrightarrow>
           \<not> s_result (scpi_capture E q (py ''TCPIP::'' @ host @ py ''::'' @ t) tmo)
           \<and> s_saved (scpi_capture E q (py ''TCPIP::'' @ host @ py ''::'' @ t) tmo) = None"
    unfolding eq by (simp add: dump_lecroy_vicp_raw_refused)
  have 4: "\<forall>s0. net E host 1861 = Some s0 \<and> 2 \<le> tx_left s0 \<longrightarrow>
           map_option tx (s_sock (scpi_capture E q (py ''TCPIP::'' @ host @ py ''::'' @ t) tmo))
             = Some (tx s0 @ [frame_of q (hcsu (norm_color (display_color E))),
                              frame_of (q mod 255 + 1) (py ''SCREEN_DUMP'')])
           \<and> (length (fst (vicp_recv s0)) < 100 \<longrightarrow>
                 \<not> s_result (scpi_capture E q (py ''TCPIP::'' @ host @ py ''::'' @ t) tmo)
                 \<and> s_saved (scpi_capture E q (py ''TCPIP::'' @ host @ py ''::'' @ t) tmo) = None)
           \<and> (100 \<le> length (fst (vicp_recv s0)) \<longrightarrow>
                 s_result (scpi_capture E q (py ''TCPIP::'' @ host @ py ''::'' @ t) tmo) = disk_ok E
                 \<and> s_saved (scpi_capture E q (py ''TCPIP::'' @ host @ py ''::'' @ t) tmo)
                     = Some (strip_ieee_block (fst (vicp_recv s0))))"
    unfolding eq by (auto simp: dump_lecroy_vicp_raw_connected)
  from 1 2 3 4 show ?thesis by (intro conjI)
qed

theorem scpi_capture_lecroy_downgrade_witness:
  "s_dialed (scpi_capture lecroy_env 0 (py ''TCPIP::10.0.0.5::inst0::INSTR'') 15000)
     = [(py ''10.0.0.5'', 1861)]
   \<and> s_result (scpi_capture lecroy_env 0 (py ''TCPIP::10.0.0.5::inst0::INSTR'') 15000)
   \<and> s_saved (scpi_capture lecroy_env 0 (py ''TCPIP::10.0.0.5::inst0::INSTR'') 15000)
       = Some (replicate 120 0x42)"
proof -
  have h: "58 \<notin> set (py ''10.0.0.5'')" by (simp add: py_def)
  have o: "open_first lecroy_env
             (candidates_of (py ''TCPIP::'' @ py ''10.0.0.5'' @ py ''::'' @ py ''inst0::INSTR''))
           = Some \<lparr>dev = lecroy_dev, calls = []\<rparr>"
    unfolding resource_form by (rule open_first_head) (simp add: lecroy_env_def)
  have d: "screen_dump (display_color lecroy_env)
     \<lparr>dev = lecroy_dev,
      calls = [SetTimeout 15000, SetReadTerm (Some [10]), SetWriteTerm (Some [10]),
               Query (py ''*IDN?'')]\<rparr> (py ''LECROY'')
   = (Inr (Some (replicate 40 0x42)),
      \<lparr>dev = lecroy_dev,
       calls = [SetTimeout 15000, SetReadTerm (Some [10]), SetWriteTerm (Some [10]),
                Query (py ''*IDN?''), Write (hcsu (py ''WHITE'')), Write (py ''SCREEN_DUMP''),
                SetReadTerm None, ReadRaw]\<rparr>)"
    using lecroy_session_dump by (simp add: lecroy_env_def)
  have small: "Some (replicate 40 (0x42 :: byte)) = None
                 \<or> (\<exists>data. Some (replicate 40 (0x42 :: byte)) = Some data \<and> length data < 100)"
    by simp
  have n: "net lecroy_env (py ''10.0.0.5'') 1861 = Some image_sock \<and> 2 \<le> tx_left image_sock"
    by (simp add: lecroy_env_def image_sock_def)
  have ok: "disk_ok lecroy_env" by (simp add: lecroy_env_def)
  from scpi_capture_lecroy_downgrade [OF h o lecroy_session_identify lecroy_vendor d small, of 0]
    n ok
  show ?thesis
    unfolding resource_form by (simp add: image_sock_recv strip_replicate)
qed

text \<open>
  Claim C3 as stated fails when port 1861 refuses the connection: the raw attempt raises
  \<open>OSError\<close> and returns no image at all, empty or too small, and the candidate reports
  failure.
\<close>

theorem scpi_capture_refused_counterexample:
  "fst (dump_lecroy_vicp_raw lecroy_env_refused 0 (py ''10.0.0.5'') (py ''WHITE'')) = Inl OSError
   \<and> s_dialed (scpi_capture lecroy_env_refused 0 (py ''TCPIP::10.0.0.5::inst0::INSTR'') 15000)
       = [(py ''10.0.0.5'', 1861)]
   \<and> \<not> s_result (scpi_capture lecroy_env_refused 0 (py ''TCPIP::10.0.0.5::inst0::INSTR'') 15000)"
proof -
  have h: "58 \<notin> set (py ''10.0.0.5'')" by (simp add: py_def)
  have o: "open_first lecroy_env_refused
             (candidates_of (py ''TCPIP::'' @ py ''10.0.0.5'' @ py ''::'' @ py ''inst0::INSTR''))
           = Some \<lparr>dev = lecroy_dev, calls = []\<rparr>"
    unfolding resource_form by (rule open_first_head) (simp add: lecroy_env_refused_def)
  have d: "screen_dump (display_color lecroy_env_refused)
     \<lparr>dev = lecroy_dev,
      calls = [SetTimeout 15000, SetReadTerm (Some [10]), SetWriteTerm (Some [10]),
               Query (py ''*IDN?'')]\<rparr> (py ''LECROY'')
   = (Inr (Some (replicate 40 0x42)),
      \<lparr>dev = lecroy_dev,
       calls = [SetTimeout 15000, SetReadTerm (Some [10]), SetWriteTerm (Some [10]),
                Query (py ''*IDN?''), Write (hcsu (py ''WHITE'')), Write (py ''SCREEN_DUMP''),
                SetReadTerm None, ReadRaw]\<rparr>)"
    using lecroy_session_dump by (simp add: lecroy_env_refused_def)
  have small: "Some (replicate 40 (0x42 :: byte)) = None
                 \<or> (\<exists>data. Some (replicate 40 (0x42 :: byte)) = Some data \<and> length data < 100)"
    by simp
  have n: "net lecroy_env_refused (py ''10.0.0.5'') 1861 = None"
    by (simp add: lecroy_env_refused_def)
  have r: "dump_lecroy_vicp_raw lecroy_env_refused 0 (py ''10.0.0.5'') (py ''WHITE'')
             = (Inl OSError, None, 0)"
    by (rule dump_lecroy_vicp_raw_refused [OF n])
  have c: "norm_color (display_color lecroy_env_refused) = py ''WHITE''"
    by (simp add: lecroy_env_refused_def white)
  from scpi_downgrade [OF h o lecroy_session_identify lecroy_vendor d small, of 0] r
  show ?thesis
    unfolding resource_form c by simp
qed

text \<open>
  Claim C4, as the code has it. On the native VICP path (connection made, three sends
  taken, tag LECROY) and on the structured path (session opened, screen dump returned), an
  image of at least 100 bytes is accepted: stripped and handed to \<open>_save_image\<close>. A
  shorter one, an empty one and none at all are a validation failure: on the VICP path the
  result is False and nothing is saved; on the structured path the routine continues with
  the fallback branch, which either attempts the raw connection or returns False with
  nothing saved. In no case does the validation raise.
\<close>

theorem validation_threshold:
  "(net E ip 1861 = Some s0 \<and> 3 \<le> tx_left s0
      \<and> detect_vendor (py_strip (decode_ascii_replace (fst (vicp_recv s0)))) = py ''LECROY'' \<longrightarrow>
      (100 \<le> length (fst (vicp_recv (snd (vicp_recv s0)))) \<longrightarrow>
          v_saved (vicp_capture E q ip)
            = Some (strip_ieee_block (fst (vicp_recv (snd (vicp_recv s0)))))
          \<and> v_result (vicp_capture E q ip) = (if disk_ok E then Inr True else Inl OSError))
      \<and> (length (fst (vicp_recv (snd (vicp_recv s0)))) < 100 \<longrightarrow>
          v_saved (vicp_capture E q ip) = None \<and> v_result (vicp_capture E q ip) = Inr False))
   \<and> (open_first E (candidates_of res) = Some sc0 \<and> identify (scope_init sc0 tmo) = (idn, sc1)
      \<and> screen_dump (display_color E) sc1 (detect_vendor idn) = (Inr image_data, sc2) \<longrightarrow>
      (\<forall>data. image_data = Some data \<and> 100 \<le> length data \<longrightarrow>
          s_saved (scpi_capture E q res tmo) = Some (strip_ieee_block data)
          \<and> s_result (scpi_capture E q res tmo) = disk_ok E
          \<and> s_dialed (scpi_capture E q res tmo) = [])
      \<and> ((image_data = None \<or> (\<exists>data. image_data = Some data \<and> length data < 100)) \<longrightarrow>
          scpi_capture E q res tmo = scpi_fallback E q res (detect_vendor idn) sc2
          \<and> (s_dialed (scpi_capture E q res tmo) = [] \<longrightarrow>
                \<not> s_result (scpi_capture E q res tmo)
                \<and> s_saved (scpi_capture E q res tmo) = None)))"
proof -
  have a: "net E ip 1861 = Some s0 \<and> 3 \<le> tx_left s0
      \<and> detect_vendor (py_strip (decode_ascii_replace (fst (vicp_recv s0)))) = py ''LECROY'' \<longrightarrow>
      (100 \<le> length (fst (vicp_recv (snd (vicp_recv s0)))) \<longrightarrow>
          v_saved (vicp_capture E q ip)
            = Some (strip_ieee_block (fst (vicp_recv (snd (vicp_recv s0)))))
          \<and> v_result (vicp_capture E q ip) = (if disk_ok E then Inr True else Inl OSError))
      \<and> (length (fst (vicp_recv (snd (vicp_recv s0)))) < 100 \<longrightarrow>
          v_saved (vicp_capture E q ip) = None \<and> v_result (vicp_capture E q ip) = Inr False)"
    using vicp_capture_lecroy [of E ip s0 q] by auto
  have b: "open_first E (candidates_of res) = Some sc0 \<and> identify (scope_init sc0 tmo) = (idn, sc1)
      \<and> screen_dump (display_color E) sc1 (detect_vendor idn) = (Inr image_data, sc2) \<longrightarrow>
      (\<forall>data. image_data = Some data \<and> 100 \<le> length data \<longrightarrow>
          s_saved (scpi_capture E q res tmo) = Some (strip_ieee_block data)
          \<and> s_result (scpi_capture E q res tmo) = disk_ok E
          \<and> s_dialed (scpi_capture E q res tmo) = [])
      \<and> ((image_data = None \<or> (\<exists>data. image_data = Some data \<and> length data < 100)) \<longrightarrow>
          scpi_capture E q res tmo = scpi_fallback E q res (detect_vendor idn) sc2
          \<and> (s_dialed (scpi_capture E q res tmo) = [] \<longrightarrow>
                \<not> s_result (scpi_capture E q res tmo)
                \<and> s_saved (scpi_capture E q res tmo) = None))"
  proof (intro impI, elim conjE)
    assume o: "open_first E (candidates_of res) = Some sc0"
      and i: "identify (scope_init sc0 tmo) = (idn, sc1)"
      and d: "screen_dump (display_color E) sc1 (detect_vendor idn) = (Inr image_data, sc2)"
    note eq = scpi_capture_session [OF o i d, of q]
    have big: "\<forall>data. image_data = Some data \<and> 100 \<le> length data \<longrightarrow>
          s_saved (scpi_capture E q res tmo) = Some (strip_ieee_block data)
          \<and> s_result (scpi_capture E q res tmo) = disk_ok E
          \<and> s_dialed (scpi_capture E q res tmo) = []"
      unfolding eq by auto
    have small: "(image_data = None \<or> (\<exists>data. image_data = Some data \<and> length data < 100)) \<longrightarrow>
          scpi_capture E q res tmo = scpi_fallback E q res (detect_vendor idn) sc2"
      unfolding eq by auto
    from big small scpi_fallback_no_downgrade [of E q res "detect_vendor idn" sc2]
    show "(\<forall>data. image_data = Some data \<and> 100 \<le> length data \<longrightarrow>
          s_saved (scpi_capture E q res tmo) = Some (strip_ieee_block data)
          \<and> s_result (scpi_capture E q res tmo) = disk_ok E
          \<and> s_dialed (scpi_capture E q res tmo) = [])
      \<and> ((image_data = None \<or> (\<exists>data. image_data = Some data \<and> length data < 100)) \<longrightarrow>
          scpi_capture E q res tmo = scpi_fallback E q res (detect_vendor idn) sc2
          \<and> (s_dialed (scpi_capture E q res tmo) = [] \<longrightarrow>
                \<not> s_result (scpi_capture E q res tmo)
                \<and> s_saved (scpi_capture E q res tmo) = None))"
      by auto
  qed
  from a b show ?thesis by (rule conjI)
qed
theorem validation_threshold_witness:
  "v_result (vicp_capture ks_env 0 (py ''10.0.0.5'')) = Inr True
   \<and> v_saved (vicp_capture ks_env 0 (py ''10.0.0.5'')) = Some (replicate 120 0x42)
   \<and> s_result (scpi_capture ks_env 0 (py ''USB0::0x2A8D::0x0396::CN1::INSTR'') 15000)
   \<and> s_saved (scpi_capture ks_env 0 (py ''USB0::0x2A8D::0x0396::CN1::INSTR'') 15000)
       = Some (replicate 100 0x41)"
proof -
  have n: "net ks_env (py ''10.0.0.5'') 1861 = Some two_reply_sock \<and> 3 \<le> tx_left two_reply_sock"
    by (simp add: ks_env_def two_reply_sock_def)
  have v: "detect_vendor (py_strip (decode_ascii_replace (fst (vicp_recv two_reply_sock))))
             = py ''LECROY''"
    unfolding two_reply_recv
    by (simp add: ascii_def decode_ascii_replace_def py_strip_def py_isspace_def detect_vendor_def
        upper_def upper_cp_def py_def sublist_Cons_right)
  have o: "open_first ks_env (candidates_of (py ''USB0::0x2A8D::0x0396::CN1::INSTR''))
             = Some \<lparr>dev = ks_dev, calls = []\<rparr>"
    by (rule open_first_head) (simp add: ks_env_def)
  have d: "screen_dump (display_color ks_env)
     \<lparr>dev = ks_dev,
      calls = [SetTimeout 15000, SetReadTerm (Some [10]), SetWriteTerm (Some [10]),
               Query (py ''*IDN?'')]\<rparr> (detect_vendor (py ''KEYSIGHT,DSOX1204G''))
   = (Inr (Some (replicate 100 0x41)),
      \<lparr>dev = ks_dev,
       calls = [SetTimeout 15000, SetReadTerm (Some [10]), SetWriteTerm (Some [10]),
                Query (py ''*IDN?''), Write (py '':DISP:DATA PNG,INKS,COL''), SetReadTerm None,
                QueryBinary (py '':DISP:DATA? PNG,INKS,COL'')]\<rparr>)"
    using ks_session_dump by (simp add: ks_env_def ks_vendor)
  have ok: "disk_ok ks_env" by (simp add: ks_env_def)
  from validation_threshold [of ks_env "py ''10.0.0.5''" two_reply_sock 0
      "py ''USB0::0x2A8D::0x0396::CN1::INSTR''" "\<lparr>dev = ks_dev, calls = []\<rparr>" 15000
      "py ''KEYSIGHT,DSOX1204G''"
      "\<lparr>dev = ks_dev,
        calls = [SetTimeout 15000, SetReadTerm (Some [10]), SetWriteTerm (Some [10]),
                 Query (py ''*IDN?'')]\<rparr>"
      "Some (replicate 100 0x41)"
      "\<lparr>dev = ks_dev,
       calls = [SetTimeout 15000, SetReadTerm (Some [10]), SetWriteTerm (Some [10]),
                Query (py ''*IDN?''), Write (py '':DISP:DATA PNG,INKS,COL''), SetReadTerm None,
                QueryBinary (py '':DISP:DATA? PNG,INKS,COL'')]\<rparr>"]
    n v o ks_session_identify d ok
  show ?thesis
    by (simp add: two_reply_recv strip_replicate strip_replicate_100)
qed

text \<open>
  Claim C4 as stated fails at exactly 100 bytes: the length does not exceed 100, and the
  image is accepted and saved.
\<close>

theorem validation_accepts_100_counterexample:
  "s_result (scpi_capture ks_env 0 (py ''USB0::0x2A8D::0x0396::CN1::INSTR'') 15000)
   \<and> s_saved (scpi_capture ks_env 0 (py ''USB0::0x2A8D::0x0396::CN1::INSTR'') 15000)
       = Some (replicate 100 0x41)
   \<and> \<not> 100 < length (replicate 100 (0x41 :: byte))"
proof -
  have o: "open_first ks_env (candidates_of (py ''USB0::0x2A8D::0x0396::CN1::INSTR''))
             = Some \<lparr>dev = ks_dev, calls = []\<rparr>"
    by (rule open_first_head) (simp add: ks_env_def)
  have d: "screen_dump (display_color ks_env)
     \<lparr>dev = ks_dev,
      calls = [SetTimeout 15000, SetReadTerm (Some [10]), SetWriteTerm (Some [10]),
               Query (py ''*IDN?'')]\<rparr> (detect_vendor (py ''KEYSIGHT,DSOX1204G''))
   = (Inr (Some (replicate 100 0x41)),
      \<lparr>dev = ks_dev,
       calls = [SetTimeout 15000, SetReadTerm (Some [10]), SetWriteTerm (Some [10]),
                Query (py ''*IDN?''), Write (py '':DISP:DATA PNG,INKS,COL''), SetReadTerm None,
                QueryBinary (py '':DISP:DATA? PNG,INKS,COL'')]\<rparr>)"
    using ks_session_dump by (simp add: ks_env_def ks_vendor)
  have ok: "disk_ok ks_env" by (simp add: ks_env_def)
  from scpi_capture_session [OF o ks_session_identify d, of 0] ok
  show ?thesis by (simp add: strip_replicate_100)
qed

end
